theory Spec2Isabelle
  imports Complex_Main "HOL-Library.Char_ord" "HOL-Library.List_Lexorder"
begin

section \<open>Strings\<close>

text \<open>
  A JavaScript string is modelled as a \<^typ>\<open>string\<close>: a list of code units below 256
  (the Latin-1 range). The helpers below are the parts of the built-in string operations
  that the algorithms use, restricted to that range.
\<close>

definition isSpace :: "char \<Rightarrow> bool" where
  \<comment> \<open>the class \<open>\s\<close> of a regular expression, which is also what \<open>trim\<close> strips:
      TAB, LF, VT, FF, CR, SPACE and NBSP\<close>
  "isSpace c = (c \<in> set [CHR 0x09, CHR 0x0A, CHR 0x0B, CHR 0x0C, CHR 0x0D, CHR 0x20, CHR 0xA0])"

definition isDigit :: "char \<Rightarrow> bool" where
  "isDigit c = (CHR ''0'' \<le> c \<and> c \<le> CHR ''9'')"

definition isLower :: "char \<Rightarrow> bool" where
  "isLower c = (CHR ''a'' \<le> c \<and> c \<le> CHR ''z'')"

definition isUpper :: "char \<Rightarrow> bool" where
  "isUpper c = (CHR ''A'' \<le> c \<and> c \<le> CHR ''Z'')"

definition isWordChar :: "char \<Rightarrow> bool" where
  \<comment> \<open>the class \<open>\w\<close>, that is \<open>[A-Za-z0-9_]\<close>\<close>
  "isWordChar c = (isUpper c \<or> isLower c \<or> isDigit c \<or> c = CHR ''_'')"

definition toLowerChar :: "char \<Rightarrow> char" where
  \<comment> \<open>\<open>A-Z\<close> and the Latin-1 capitals \<open>0xC0-0xDE\<close> (without the sign \<open>0xD7\<close>) move up by 32\<close>
  "toLowerChar c =
     (let n = (of_char c :: nat)
      in if (65 \<le> n \<and> n \<le> 90) \<or> (192 \<le> n \<and> n \<le> 222 \<and> n \<noteq> 215)
         then char_of (n + 32) else c)"

definition toLowerCase :: "string \<Rightarrow> string" where
  "toLowerCase s = map toLowerChar s"

definition trim :: "string \<Rightarrow> string" where
  "trim s = rev (dropWhile isSpace (rev (dropWhile isSpace s)))"

fun includes_str :: "string \<Rightarrow> string \<Rightarrow> bool" where
  \<comment> \<open>\<open>s.includes(t)\<close>: \<open>t\<close> occurs in \<open>s\<close> as a contiguous substring\<close>
  "includes_str [] t = (t = [])"
| "includes_str (c # cs) t = (take (length t) (c # cs) = t \<or> includes_str cs t)"

fun join :: "string \<Rightarrow> string list \<Rightarrow> string" where
  \<comment> \<open>\<open>ws.join(sep)\<close>\<close>
  "join sep [] = []"
| "join sep [w] = w"
| "join sep (w # v # ws) = w @ sep @ join sep (v # ws)"

definition startsWithSpace :: "string \<Rightarrow> bool" where
  "startsWithSpace s = (case s of [] \<Rightarrow> False | d # _ \<Rightarrow> isSpace d)"

fun split_ws :: "string \<Rightarrow> string list" where
  \<comment> \<open>\<open>s.split(/\s+/)\<close>: the pieces between the maximal runs of whitespace; a leading or
      trailing run leaves an empty piece, and the empty string has the one piece \<open>""\<close>.
      At a whitespace character the current piece ends, unless the run goes on.\<close>
  "split_ws [] = [[]]"
| "split_ws (c # cs) =
     (if isSpace c
      then (if startsWithSpace cs then split_ws cs else [] # split_ws cs)
      else (case split_ws cs of
              [] \<Rightarrow> [[c]]
            | w # ws \<Rightarrow> (c # w) # ws))"

section \<open>Helpers for objects and arrays\<close>

definition orDefault :: "'a option \<Rightarrow> 'a \<Rightarrow> 'a" where
  \<comment> \<open>a destructuring default \<open>{ x = d }\<close> and the operator \<open>??\<close>\<close>
  "orDefault x d = (case x of None \<Rightarrow> d | Some v \<Rightarrow> v)"

section \<open>BM25: tokenizer and stop words (bm25.ts)\<close>

definition replaceNonWord :: "char \<Rightarrow> char" where
  \<comment> \<open>one character of \<open>.replace(/[^\w\s]/g, " ")\<close>\<close>
  "replaceNonWord c = (if \<not> isWordChar c \<and> \<not> isSpace c then CHR '' '' else c)"

definition tokenize :: "string \<Rightarrow> string list" where
  "tokenize text =
     filter (\<lambda>word. length word > 2)
       (split_ws (map replaceNonWord (toLowerCase text)))"

function maximalRuns :: "(char \<Rightarrow> bool) \<Rightarrow> string \<Rightarrow> string list" where
  \<comment> \<open>not a function of the source: the maximal runs of the characters of a string that
      satisfy \<open>P\<close>, from left to right; it states what the tokenizer computes\<close>
  "maximalRuns P [] = []"
| "maximalRuns P (c # cs) =
     (if P c then (c # takeWhile P cs) # maximalRuns P (dropWhile P cs) else maximalRuns P cs)"
  by pat_completeness auto
termination
  by (relation "measure (\<lambda>(P, s). length s)") (auto simp: length_dropWhile_le less_Suc_eq_le)

definition STOP_WORDS :: "string set" where
  "STOP_WORDS = set
     [''the'', ''a'', ''an'', ''and'', ''or'', ''but'', ''in'', ''on'', ''at'', ''to'',
      ''for'', ''of'', ''with'', ''by'', ''from'', ''as'', ''is'', ''was'', ''are'',
      ''were'', ''been'', ''be'', ''have'', ''has'', ''had'', ''do'', ''does'', ''did'',
      ''will'', ''would'', ''should'', ''could'', ''may'', ''might'', ''must'', ''can'',
      ''this'', ''that'', ''these'', ''those'', ''i'', ''you'', ''he'', ''she'', ''it'',
      ''we'', ''they'', ''what'', ''which'', ''who'', ''when'', ''where'', ''why'', ''how'']"

section \<open>BM25: scoring and ranking (bm25.ts)\<close>

text \<open>
  A division of the source does not fail: by zero it gives \<open>Infinity\<close> or \<open>NaN\<close> and the
  computation goes on with that value. The reals have no such values, so the model makes
  the event visible: \<open>divide\<close> returns \<^const>\<open>None\<close> when the denominator is zero, and a
  function that uses it returns \<^const>\<open>None\<close> from then on. A result \<open>Some v\<close> is a run
  in which no division by zero happened. Divisions by a non-zero literal, or by a count plus
  a positive constant, are written with the plain \<open>/\<close>.

  The scores are computed over the reals, which neither round nor underflow. In doubles the
  product of two non-zero numbers can be zero (\<open>k1 = 5e-324\<close> times \<open>0.25\<close>), so that a
  divisor is not zero is stated below for the default parameters \<open>k1 = 1.5\<close> and \<open>b = 0.75\<close>
  only: there the BM25 denominator is at least \<open>1.5 \<times> 0.25\<close> and the average length at least
  one token over the number of documents, and no rounding makes them zero.
\<close>

definition divide :: "real \<Rightarrow> real \<Rightarrow> real option" where
  "divide x y = (if y = 0 then None else Some (x / y))"

definition setAdd :: "'a \<Rightarrow> 'a list \<Rightarrow> 'a list" where
  \<comment> \<open>\<open>s.add(x)\<close> on a \<open>Set\<close>, kept as the list of its elements in insertion order\<close>
  "setAdd x s = (if x \<in> set s then s else s @ [x])"

primrec forEachM :: "('a \<Rightarrow> 's \<Rightarrow> 's option) \<Rightarrow> 'a list \<Rightarrow> 's \<Rightarrow> 's option" where
  \<comment> \<open>a loop \<open>for (const x of xs)\<close> over a state, stopping at the first \<^const>\<open>None\<close>\<close>
  "forEachM f [] s = Some s"
| "forEachM f (x # xs) s = (case f x s of None \<Rightarrow> None | Some s' \<Rightarrow> forEachM f xs s')"

record BM25Config =
  k1_cfg :: "real option"
  b_cfg :: "real option"

record Document =
  id_d :: string
  text_d :: string
  title :: "string option"
  subtitle :: "string option"
  tags_d :: "string list option"

record ScoredDocument = Document +
  score :: real

definition calculateTF :: "string \<Rightarrow> string list \<Rightarrow> real" where
  "calculateTF term tokens = real (length (filter (\<lambda>token. token = term) tokens))"

definition calculateIDF :: "string \<Rightarrow> Document list \<Rightarrow> (string \<rightharpoonup> string set) \<Rightarrow> real" where
  "calculateIDF term documents allTokens =
     (let N = real (length documents);
          n = real (case allTokens term of None \<Rightarrow> 0 | Some ids \<Rightarrow> card ids)
      in if n = 0 then 0 else ln ((N - n + 0.5) / (n + 0.5)))"

definition calculateAvgDocLength :: "Document list \<Rightarrow> real option" where
  "calculateAvgDocLength documents =
     (let totalLength =
            foldl (\<lambda>sum doc. sum + real (length (tokenize (text_d doc)))) 0 documents
      in if length documents > 0 then divide totalLength (real (length documents)) else Some 0)"

definition indexDocument :: "Document \<Rightarrow> (string \<rightharpoonup> string set) \<Rightarrow> (string \<rightharpoonup> string set)" where
  \<comment> \<open>the body of the loop over the documents in \<open>buildInvertedIndex\<close>\<close>
  "indexDocument doc index =
     (let tokens = tokenize (text_d doc);
          uniqueTokens = fold setAdd tokens []
      in fold (\<lambda>token index.
                 if token \<notin> STOP_WORDS
                 then index(token \<mapsto> insert (id_d doc) (orDefault (index token) {}))
                 else index)
           uniqueTokens index)"

definition buildInvertedIndex :: "Document list \<Rightarrow> (string \<rightharpoonup> string set)" where
  "buildInvertedIndex documents = fold indexDocument documents Map.empty"

definition fieldBoost :: "Document \<Rightarrow> string \<Rightarrow> real" where
  \<comment> \<open>the \<open>boost\<close> of one query term in \<open>calculateBM25Score\<close>\<close>
  "fieldBoost document term =
     (let termLower = toLowerCase term
      in if (case title document of
               None \<Rightarrow> False
             | Some t \<Rightarrow> includes_str (toLowerCase t) termLower)
         then 2.0
         else if (case subtitle document of
                    None \<Rightarrow> False
                  | Some t \<Rightarrow> includes_str (toLowerCase t) termLower)
         then 1.5
         else if (case tags_d document of
                    None \<Rightarrow> False
                  | Some ts \<Rightarrow> list_ex (\<lambda>tag. includes_str (toLowerCase tag) termLower) ts)
         then 1.3
         else 1.0)"

definition scoreTerm ::
  "real \<Rightarrow> real \<Rightarrow> Document \<Rightarrow> string list \<Rightarrow> real \<Rightarrow> Document list \<Rightarrow>
   (string \<rightharpoonup> string set) \<Rightarrow> real \<Rightarrow> string \<Rightarrow> real \<Rightarrow> real option" where
  \<comment> \<open>the body of the loop over the query tokens in \<open>calculateBM25Score\<close>, from the
      running \<open>score\<close> to the next one; \<open>continue\<close> leaves the score as it is\<close>
  "scoreTerm k1 b document docTokens docLength allDocuments invertedIndex avgDocLength term score' =
     (if term \<in> STOP_WORDS then Some score'
      else
        let idf = calculateIDF term allDocuments invertedIndex
        in if idf \<le> 0 then Some score'
           else
             let tf = calculateTF term docTokens;
                 boost = fieldBoost document term;
                 numerator = tf * (k1 + 1)
             in case divide docLength avgDocLength of
                  None \<Rightarrow> None
                | Some ratio \<Rightarrow>
                    let denominator = tf + k1 * (1 - b + b * ratio)
                    in (case divide (idf * numerator) denominator of
                          None \<Rightarrow> None
                        | Some termScore \<Rightarrow> Some (score' + termScore * boost)))"

definition calculateBM25Score ::
  "string \<Rightarrow> Document \<Rightarrow> Document list \<Rightarrow> (string \<rightharpoonup> string set) \<Rightarrow> real \<Rightarrow>
   BM25Config \<Rightarrow> real option" where
  "calculateBM25Score query document allDocuments invertedIndex avgDocLength config =
     (let k1 = orDefault (k1_cfg config) 1.5;
          b = orDefault (b_cfg config) 0.75;
          queryTokens = tokenize query;
          docTokens = tokenize (text_d document);
          docLength = real (length docTokens)
      in forEachM
           (scoreTerm k1 b document docTokens docLength allDocuments invertedIndex avgDocLength)
           queryTokens 0)"

definition rankDocumentsWithBM25 ::
  "string \<Rightarrow> Document list \<Rightarrow> BM25Config \<Rightarrow> ScoredDocument list option" where
  "rankDocumentsWithBM25 query documents config =
     (if trim query = [] \<or> length documents = 0
      then Some (map (\<lambda>doc. Document.extend doc (ScoredDocument.fields 0)) documents)
      else
        let invertedIndex = buildInvertedIndex documents
        in case calculateAvgDocLength documents of
             None \<Rightarrow> None
           | Some avgDocLength \<Rightarrow>
               (case those (map (\<lambda>doc.
                        map_option (\<lambda>score. Document.extend doc (ScoredDocument.fields score))
                          (calculateBM25Score query doc documents invertedIndex avgDocLength
                             config))
                      documents) of
                  None \<Rightarrow> None
                | Some scoredDocs \<Rightarrow>
                    Some (sort_key (\<lambda>doc. - score doc)
                            (filter (\<lambda>doc. score doc > 0) scoredDocs))))"

section \<open>Articles and time\<close>

text \<open>
  Numbers are JavaScript doubles in the source. The model takes the engagement counters
  and the timestamps (milliseconds since the epoch, as \<open>getTime()\<close> returns them) as
  integers and computes every score over the reals, with \<^const>\<open>ln\<close>, \<^const>\<open>exp\<close> and
  \<^const>\<open>powr\<close> for \<open>Math.log\<close>, \<open>Math.exp\<close> and \<open>Math.pow\<close>: rounding is not modelled.
  \<open>Math.log\<close> of a number that is not positive and \<open>Math.pow\<close> of a negative base are not
  numbers in the source, while \<^const>\<open>ln\<close> and \<^const>\<open>powr\<close> are total; they are met only
  with negative counters or with an article dated more than 12 hours after the clock, and
  no property below reads a score there.
  The current time \<open>new Date()\<close> is the parameter \<open>now\<close> of every function that reads the
  clock; one call reads one time.

  The two \<open>Article\<close> interfaces of recommendations.ts and trending.ts share the fields
  \<open>id\<close>, \<open>likesCount\<close>, \<open>commentsCount\<close>, \<open>readCount\<close> and \<open>createdAt\<close>; they are the
  common part of both records, and each interface extends it with its own fields. An
  optional field is an \<^typ>\<open>'a option\<close>, with \<^const>\<open>None\<close> for \<open>undefined\<close>.
\<close>

record ArticleCore =
  id_a :: string
  likesCount :: int
  commentsCount :: int
  readCount :: int
  createdAt :: int

definition slice0 :: "int \<Rightarrow> 'a list \<Rightarrow> 'a list" where
  \<comment> \<open>\<open>xs.slice(0, limit)\<close>: a negative \<open>limit\<close> counts from the end\<close>
  "slice0 limit xs =
     take (nat (if limit < 0 then int (length xs) + limit else limit)) xs"

definition daysOld :: "int \<Rightarrow> int \<Rightarrow> real" where
  \<comment> \<open>\<open>(now.getTime() - date.getTime()) / (1000 * 60 * 60 * 24)\<close>\<close>
  "daysOld now date = real_of_int (now - date) / (1000 * 60 * 60 * 24)"

section \<open>Trending: time-decayed hot score (trending.ts)\<close>

record Article = ArticleCore +
  userId :: "string option"
  authorVerified :: "bool option"
  qualityScore :: "real option"

record TrendingArticle = Article +
  hotScore :: real
  engagementScore :: real
  timeDecay :: real

record Filters =
  minLikes :: "real option"
  minComments :: "real option"
  maxAgeDays :: "real option"
  useLogarithmicDecay :: "bool option"

datatype TimeVariant = ANY | WEEK | MONTH | YEAR

definition calculateEngagementScore :: "'a ArticleCore_scheme \<Rightarrow> real" where
  "calculateEngagementScore article =
     (let engagement =
            real_of_int (likesCount article * 2 + commentsCount article * 3 + readCount article * 1)
      in ln (1 + engagement))"

definition calculateExponentialDecay :: "int \<Rightarrow> int \<Rightarrow> real \<Rightarrow> real" where
  "calculateExponentialDecay now articleDate decayConstant =
     (let hoursOld = real_of_int (now - articleDate) / (1000 * 60 * 60);
          daysOld = hoursOld / 24
      in exp (- daysOld / decayConstant))"

definition calculateLogarithmicDecay :: "int \<Rightarrow> int \<Rightarrow> real \<Rightarrow> real option" where
  \<comment> \<open>\<open>1 / Math.pow(1 + hoursOld / 12, gravity)\<close>, with the division made visible as in
      bm25.ts: \<^const>\<open>None\<close> when the power is zero\<close>
  "calculateLogarithmicDecay now articleDate gravity =
     (let hoursOld = real_of_int (now - articleDate) / (1000 * 60 * 60)
      in divide 1 ((1 + hoursOld / 12) powr gravity))"

definition calculateHotScore :: "int \<Rightarrow> Article \<Rightarrow> bool \<Rightarrow> TrendingArticle" where
  \<comment> \<open>the fields of the result are reals: where the logarithmic decay divides by zero the
      source goes on with \<open>Infinity\<close>, which the record cannot hold, and 0 stands in for it\<close>
  "calculateHotScore now article useLogarithmic =
     (let engagementScore = calculateEngagementScore article;
          timeDecay = (if useLogarithmic
                       then orDefault (calculateLogarithmicDecay now (createdAt article) 1.8) 0
                       else calculateExponentialDecay now (createdAt article) 7);
          hotScore = engagementScore * timeDecay;
          hotScore = (if authorVerified article = Some True then hotScore * 1.1 else hotScore);
          hotScore = (case qualityScore article of
                        None \<Rightarrow> hotScore
                      | Some q \<Rightarrow>
                          if q \<noteq> 0 \<and> q > 70
                          then (let qualityBoost = 1 + ((q - 70) / 10) * 0.05
                                in hotScore * qualityBoost)
                          else hotScore)
      in Article.extend article (TrendingArticle.fields hotScore engagementScore timeDecay))"

definition keepArticle :: "int \<Rightarrow> real \<Rightarrow> real \<Rightarrow> real \<Rightarrow> Article \<Rightarrow> bool" where
  \<comment> \<open>the callback of \<open>articles.filter\<close> in \<open>rankTrendingArticles\<close>\<close>
  "keepArticle now minLikes' minComments' maxAgeDays' article =
     (if real_of_int (likesCount article) < minLikes' \<and>
         real_of_int (commentsCount article) < minComments'
      then False
      else if maxAgeDays' > 0 \<and> daysOld now (createdAt article) > maxAgeDays'
      then False
      else True)"

definition rankTrendingArticles ::
  "int \<Rightarrow> Article list \<Rightarrow> Filters \<Rightarrow> int \<Rightarrow> TrendingArticle list" where
  "rankTrendingArticles now articles filters limit =
     (let minLikes' = orDefault (minLikes filters) 1;
          minComments' = orDefault (minComments filters) 0;
          maxAgeDays' = orDefault (maxAgeDays filters) 90;
          useLogarithmicDecay' = orDefault (useLogarithmicDecay filters) False;
          filteredArticles = filter (keepArticle now minLikes' minComments' maxAgeDays') articles;
          trendingArticles =
            map (\<lambda>article. calculateHotScore now article useLogarithmicDecay') filteredArticles;
          ranked = sort_key (\<lambda>a. - hotScore a) trendingArticles
      in slice0 limit ranked)"

definition getTrendingArticlesByPeriod ::
  "int \<Rightarrow> Article list \<Rightarrow> TimeVariant \<Rightarrow> int \<Rightarrow> TrendingArticle list" where
  "getTrendingArticlesByPeriod now articles timeVariant limit =
     (let maxAgeDays' = (case timeVariant of
                           WEEK \<Rightarrow> 7
                         | MONTH \<Rightarrow> 30
                         | YEAR \<Rightarrow> 365
                         | ANY \<Rightarrow> 90)
      in rankTrendingArticles now articles
           \<lparr>minLikes = Some 1, minComments = Some 0, maxAgeDays = Some maxAgeDays',
            useLogarithmicDecay = Some False\<rparr>
           limit)"

section \<open>Recommendations: weighted Jaccard similarity (recommendations.ts)\<close>

record Tag =
  id_t :: string
  name :: string
  slug :: string

record Article_r = ArticleCore +
  tags :: "Tag list"

record RecommendedArticle = Article_r +
  similarityScore :: real
  sharedTags :: "string list"

definition articlesWithTag :: "string \<Rightarrow> Article_r list \<Rightarrow> nat" where
  \<comment> \<open>the constant \<open>articlesWithTag\<close> of \<open>calculateTagWeight\<close>\<close>
  "articlesWithTag tagId allArticles =
     length (filter (\<lambda>a. list_ex (\<lambda>t. id_t t = tagId) (tags a)) allArticles)"

definition calculateTagWeight :: "string \<Rightarrow> string \<Rightarrow> Article_r \<Rightarrow> Article_r list \<Rightarrow> real" where
  "calculateTagWeight tagId tagName article allArticles =
     (let tf = (if list_ex (\<lambda>t. id_t t = tagId) (tags article) then 1 else 0);
          idf = ln (real (length allArticles + 1) / real (articlesWithTag tagId allArticles + 1));
          engagementBoost =
            1 + ln (1 + (real_of_int (likesCount article) * 0.3 +
                         real_of_int (commentsCount article) * 0.5 +
                         real_of_int (readCount article) * 0.2))
      in tf * idf * engagementBoost)"

definition tagWeights :: "Article_r \<Rightarrow> Article_r list \<Rightarrow> (string \<rightharpoonup> real)" where
  \<comment> \<open>the map \<open>weightsA\<close> (or \<open>weightsB\<close>) that \<open>calculateWeightedJaccard\<close> fills from the
      tags of one article\<close>
  "tagWeights article allArticles =
     fold (\<lambda>tag weights.
             weights(id_t tag \<mapsto> calculateTagWeight (id_t tag) (name tag) article allArticles))
       (tags article) Map.empty"

definition tagNameOf :: "Article_r \<Rightarrow> Article_r \<Rightarrow> string \<Rightarrow> string" where
  \<comment> \<open>\<open>articleA.tags.find(..)?.name ?? articleB.tags.find(..)?.name ?? ""\<close>\<close>
  "tagNameOf articleA articleB tagId =
     (case find (\<lambda>t. id_t t = tagId) (tags articleA) of
        Some t \<Rightarrow> name t
      | None \<Rightarrow>
          (case find (\<lambda>t. id_t t = tagId) (tags articleB) of
             Some t \<Rightarrow> name t
           | None \<Rightarrow> []))"

definition jaccardStep ::
  "Article_r \<Rightarrow> Article_r \<Rightarrow> (string \<rightharpoonup> real) \<Rightarrow> (string \<rightharpoonup> real) \<Rightarrow> string \<Rightarrow>
   real \<times> real \<times> string list \<Rightarrow> real \<times> real \<times> string list" where
  \<comment> \<open>the body of the loop over \<open>allTagIds\<close>, on the state \<open>(minSum, maxSum, sharedTags)\<close>\<close>
  "jaccardStep articleA articleB weightsA weightsB tagId state =
     (case state of (minSum, maxSum, shared) \<Rightarrow>
        let weightA = orDefault (weightsA tagId) 0;
            weightB = orDefault (weightsB tagId) 0
        in (minSum + min weightA weightB,
            maxSum + max weightA weightB,
            if weightA > 0 \<and> weightB > 0
            then (let tagName = tagNameOf articleA articleB tagId
                  in if tagName \<noteq> [] then shared @ [tagName] else shared)
            else shared))"

definition jaccardSums ::
  "Article_r \<Rightarrow> Article_r \<Rightarrow> Article_r list \<Rightarrow> real \<times> real \<times> string list" where
  \<comment> \<open>\<open>calculateWeightedJaccard\<close> up to the end of its loop: the values of \<open>minSum\<close>,
      \<open>maxSum\<close> and \<open>sharedTags\<close> there\<close>
  "jaccardSums articleA articleB allArticles =
     (let allTagIds = fold (\<lambda>tag ids. setAdd (id_t tag) ids) (tags articleA) [];
          allTagIds = fold (\<lambda>tag ids. setAdd (id_t tag) ids) (tags articleB) allTagIds;
          weightsA = tagWeights articleA allArticles;
          weightsB = tagWeights articleB allArticles
      in fold (jaccardStep articleA articleB weightsA weightsB) allTagIds (0, 0, []))"

definition calculateWeightedJaccard ::
  "Article_r \<Rightarrow> Article_r \<Rightarrow> Article_r list \<Rightarrow> (real \<times> string list) option" where
  \<comment> \<open>the result is the pair \<open>(similarity, sharedTags)\<close>\<close>
  "calculateWeightedJaccard articleA articleB allArticles =
     (case jaccardSums articleA articleB allArticles of
        (minSum, maxSum, shared) \<Rightarrow>
          if maxSum > 0
          then map_option (\<lambda>similarity. (similarity, shared)) (divide minSum maxSum)
          else Some (0, shared))"

definition applyRecencyDecay :: "int \<Rightarrow> real \<Rightarrow> int \<Rightarrow> real" where
  "applyRecencyDecay now similarity articleDate =
     (let ageFactor = min 1 (daysOld now articleDate / 365) * 0.2
      in similarity * (1 - ageFactor))"

fun diversityLoop ::
  "int \<Rightarrow> RecommendedArticle list \<Rightarrow> RecommendedArticle list \<times> string set \<Rightarrow>
   RecommendedArticle list" where
  \<comment> \<open>the loop \<open>for (const rec of sorted)\<close> on the state
      \<open>(diverseResults, usedTagCombinations)\<close>; \<open>rec.sharedTags.sort()\<close> sorts the array of the
      record in place, so the record that is pushed carries the sorted array\<close>
  "diversityLoop limit [] (diverseResults, used) = diverseResults"
| "diversityLoop limit (r # rest) (diverseResults, used) =
     (if int (length diverseResults) \<ge> limit then diverseResults
      else
        let r' = r\<lparr>sharedTags := sort (sharedTags r)\<rparr>;
            tagKey = join '','' (sharedTags r')
        in if tagKey \<notin> used \<or> real (length diverseResults) < real_of_int limit / 2
           then diversityLoop limit rest (diverseResults @ [r'], insert tagKey used)
           else diversityLoop limit rest (diverseResults, used))"

definition getContentBasedRecommendations ::
  "int \<Rightarrow> Article_r \<Rightarrow> Article_r list \<Rightarrow> string list \<Rightarrow> int \<Rightarrow>
   RecommendedArticle list option" where
  "getContentBasedRecommendations now currentArticle candidateArticles excludeArticleIds limit =
     (let candidates =
            filter (\<lambda>article. id_a article \<noteq> id_a currentArticle \<and>
                              id_a article \<notin> set excludeArticleIds)
              candidateArticles
      in case those (map (\<lambda>article.
                      map_option (\<lambda>(similarity, shared).
                          Article_r.extend article
                            (RecommendedArticle.fields
                               (applyRecencyDecay now similarity (createdAt article)) shared))
                        (calculateWeightedJaccard currentArticle article candidateArticles))
                    candidates) of
           None \<Rightarrow> None
         | Some recommendations \<Rightarrow>
             let validRecommendations =
                   filter (\<lambda>r. similarityScore r > 0 \<and> length (sharedTags r) > 0)
                     recommendations;
                 ranked = sort_key (\<lambda>r. - similarityScore r) validRecommendations;
                 diverseResults = diversityLoop limit ranked ([], {})
             in Some (slice0 limit diverseResults))"

section \<open>Example data\<close>

text \<open>Three small documents and two configurations, used to run the ranking below.\<close>

definition doc_rust :: Document where
  "doc_rust = \<lparr>id_d = ''a'', text_d = ''rust memory safety'', title = Some ''Rust memory safety'',
                subtitle = None, tags_d = None\<rparr>"

definition doc_pasta :: Document where
  "doc_pasta = \<lparr>id_d = ''b'', text_d = ''cooking pasta'', title = Some ''Cooking pasta'',
                subtitle = None, tags_d = None\<rparr>"

definition doc_garden :: Document where
  "doc_garden = \<lparr>id_d = ''c'', text_d = ''gardening tips today'', title = None,
                subtitle = None, tags_d = Some [''garden'']\<rparr>"

definition exampleDocuments :: "Document list" where
  "exampleDocuments = [doc_rust, doc_pasta, doc_garden]"

definition defaultConfig :: BM25Config where
  "defaultConfig = \<lparr>k1_cfg = None, b_cfg = None\<rparr>"

definition zeroK1Config :: BM25Config where
  "zeroK1Config = \<lparr>k1_cfg = Some 0, b_cfg = None\<rparr>"

text \<open>
  Three articles for the recommendations: the current one, one with the same two tags
  (listed in the order \<open>zeta\<close>, \<open>alpha\<close>) and one without tags.
\<close>

definition tag_zeta :: Tag where
  "tag_zeta = \<lparr>id_t = ''t1'', name = ''zeta'', slug = ''zeta''\<rparr>"

definition tag_alpha :: Tag where
  "tag_alpha = \<lparr>id_t = ''t2'', name = ''alpha'', slug = ''alpha''\<rparr>"

definition art_current :: Article_r where
  "art_current = \<lparr>id_a = ''cur'', likesCount = 0, commentsCount = 0, readCount = 0,
                   createdAt = 0, tags = [tag_zeta, tag_alpha]\<rparr>"

definition art_similar :: Article_r where
  "art_similar = \<lparr>id_a = ''sim'', likesCount = 0, commentsCount = 0, readCount = 0,
                   createdAt = 0, tags = [tag_zeta, tag_alpha]\<rparr>"

definition art_other :: Article_r where
  "art_other = \<lparr>id_a = ''oth'', likesCount = 0, commentsCount = 0, readCount = 0,
                 createdAt = 0, tags = []\<rparr>"

definition exampleCandidates :: "Article_r list" where
  "exampleCandidates = [art_similar, art_other]"

text \<open>
  Articles for the trending ranking, with clock readings in milliseconds: \<open>day\<close> is one
  day. At the time \<open>100 * day\<close> the article \<open>art_young\<close> is one day old and \<open>art_old\<close> is
  ten days old; \<open>art_stale\<close> is a hundred days old.
\<close>

definition day :: int where
  "day = 1000 * 60 * 60 * 24"

definition art_quiet :: Article where
  "art_quiet = \<lparr>id_a = ''quiet'', likesCount = 0, commentsCount = 3, readCount = 0,
                 createdAt = 99 * day, userId = None, authorVerified = None,
                 qualityScore = None\<rparr>"

definition art_young :: Article where
  "art_young = \<lparr>id_a = ''young'', likesCount = 1, commentsCount = 0, readCount = 0,
                 createdAt = 99 * day, userId = None, authorVerified = None,
                 qualityScore = None\<rparr>"

definition art_old :: Article where
  "art_old = \<lparr>id_a = ''old'', likesCount = 1000, commentsCount = 500, readCount = 9000,
               createdAt = 90 * day, userId = None, authorVerified = Some True,
               qualityScore = Some 95\<rparr>"

definition art_fresh :: Article where
  "art_fresh = \<lparr>id_a = ''fresh'', likesCount = 0, commentsCount = 0, readCount = 0,
                 createdAt = 99 * day, userId = None, authorVerified = None,
                 qualityScore = None\<rparr>"

definition art_stale :: Article where
  "art_stale = \<lparr>id_a = ''stale'', likesCount = 50, commentsCount = 3, readCount = 10,
                 createdAt = 0, userId = None, authorVerified = None, qualityScore = None\<rparr>"

definition strictFilters :: Filters where
  "strictFilters = \<lparr>minLikes = Some 5, minComments = Some 2, maxAgeDays = Some 0,
                     useLogarithmicDecay = None\<rparr>"

definition noFilters :: Filters where
  \<comment> \<open>the default argument \<open>filters = {}\<close>\<close>
  "noFilters = \<lparr>minLikes = None, minComments = None, maxAgeDays = None,
                 useLogarithmicDecay = None\<rparr>"

section \<open>Properties of the tokenizer\<close>

lemma toLowerChar_not_upper: "\<not> isUpper (toLowerChar c)"
proof -
  have lt: "of_char c < (256::nat)"
    by simp
  show ?thesis
    using lt by (auto simp: toLowerChar_def isUpper_def less_eq_char_def Let_def)
qed

lemma split_ws_not_Nil: "split_ws s \<noteq> []"
  by (induction s) (auto split: list.splits)

lemma split_ws_chars:
  "w \<in> set (split_ws s) \<Longrightarrow> c \<in> set w \<Longrightarrow> c \<in> set s \<and> \<not> isSpace c"
proof (induction s arbitrary: w)
  case Nil
  then show ?case by simp
next
  case (Cons a s)
  show ?case
  proof (cases "isSpace a")
    case True
    with Cons.prems(1) have "w = [] \<or> w \<in> set (split_ws s)"
      by (auto split: if_splits)
    with Cons.prems(2) have "w \<in> set (split_ws s)"
      by auto
    from Cons.IH [OF this Cons.prems(2)] show ?thesis
      by simp
  next
    case False
    obtain v vs where sp: "split_ws s = v # vs"
      using split_ws_not_Nil [of s] by (cases "split_ws s") auto
    with False Cons.prems(1) have "w = a # v \<or> w \<in> set vs"
      by simp
    then show ?thesis
    proof
      assume w: "w = a # v"
      show ?thesis
      proof (cases "c = a")
        case True
        with False show ?thesis by simp
      next
        case c: False
        with w Cons.prems(2) have "c \<in> set v" by simp
        moreover have "v \<in> set (split_ws s)" by (simp add: sp)
        ultimately show ?thesis using Cons.IH by simp
      qed
    next
      assume "w \<in> set vs"
      then have "w \<in> set (split_ws s)" by (simp add: sp)
      from Cons.IH [OF this Cons.prems(2)] show ?thesis by simp
    qed
  qed
qed

lemma replaced_lower_char:
  assumes "c \<in> set (map replaceNonWord (toLowerCase s))" and "\<not> isSpace c"
  shows "isLower c \<or> isDigit c \<or> c = CHR ''_''"
proof -
  from assms(1) obtain x where c: "c = replaceNonWord (toLowerChar x)"
    by (auto simp: toLowerCase_def)
  have sp: "isSpace CHR '' ''"
    by (simp add: isSpace_def)
  from c assms(2) sp have "c = toLowerChar x" and "isWordChar c"
    by (auto simp: replaceNonWord_def split: if_splits)
  with toLowerChar_not_upper [of x] show ?thesis
    by (simp add: isWordChar_def)
qed

lemma split_ws_takeWhile:
  "\<exists>rest. split_ws s = takeWhile (\<lambda>c. \<not> isSpace c) s # rest \<and>
     filter (\<lambda>w. w \<noteq> []) rest = maximalRuns (\<lambda>c. \<not> isSpace c) (dropWhile (\<lambda>c. \<not> isSpace c) s)"
proof (induction s)
  case Nil
  then show ?case by simp
next
  case (Cons c cs)
  from Cons obtain rest where
    sp: "split_ws cs = takeWhile (\<lambda>c. \<not> isSpace c) cs # rest" and
    rs: "filter (\<lambda>w. w \<noteq> []) rest =
           maximalRuns (\<lambda>c. \<not> isSpace c) (dropWhile (\<lambda>c. \<not> isSpace c) cs)"
    by blast
  show ?case
  proof (cases "isSpace c")
    case False
    with sp rs show ?thesis by simp
  next
    case True
    show ?thesis
    proof (cases cs)
      case Nil
      with True show ?thesis by (simp add: startsWithSpace_def)
    next
      case (Cons d ds)
      show ?thesis
      proof (cases "isSpace d")
        case d: True
        with True Cons sp rs show ?thesis
          by (simp add: startsWithSpace_def)
      next
        case d: False
        with True Cons sp rs show ?thesis
          by (simp add: startsWithSpace_def)
      qed
    qed
  qed
qed

lemma filter_split_ws_maximalRuns:
  "filter (\<lambda>w. length w > 2) (split_ws s) =
   filter (\<lambda>w. length w > 2) (maximalRuns (\<lambda>c. \<not> isSpace c) s)"
proof -
  obtain rest where
    sp: "split_ws s = takeWhile (\<lambda>c. \<not> isSpace c) s # rest" and
    rs: "filter (\<lambda>w. w \<noteq> []) rest =
           maximalRuns (\<lambda>c. \<not> isSpace c) (dropWhile (\<lambda>c. \<not> isSpace c) s)"
    using split_ws_takeWhile by blast
  have "filter (\<lambda>w. length w > 2) rest =
        filter (\<lambda>w. length w > 2) (filter (\<lambda>w. w \<noteq> []) rest)"
    by (auto intro: filter_cong)
  with rs have r: "filter (\<lambda>w. length w > 2) rest =
        filter (\<lambda>w. length w > 2)
          (maximalRuns (\<lambda>c. \<not> isSpace c) (dropWhile (\<lambda>c. \<not> isSpace c) s))"
    by simp
  show ?thesis
  proof (cases s)
    case Nil
    then show ?thesis by simp
  next
    case (Cons c cs)
    then show ?thesis
      using sp r by (cases "isSpace c") simp_all
  qed
qed

lemma maximalRuns_map:
  assumes qp: "\<And>c. Q (f c) \<longleftrightarrow> P c" and fx: "\<And>c. P c \<Longrightarrow> f c = c"
  shows "maximalRuns Q (map f s) = maximalRuns P s"
proof (induction "length s" arbitrary: s rule: less_induct)
  case less
  show ?case
  proof (cases s)
    case Nil
    then show ?thesis by simp
  next
    case (Cons c cs)
    have comp: "Q \<circ> f = P" using qp by (auto simp: fun_eq_iff)
    have "map f (takeWhile P cs) = takeWhile P cs"
      by (rule map_idI) (auto dest: set_takeWhileD simp: fx)
    then have tw: "takeWhile Q (map f cs) = takeWhile P cs"
      by (simp add: takeWhile_map comp)
    have dw: "dropWhile Q (map f cs) = map f (dropWhile P cs)"
      by (simp add: dropWhile_map comp)
    have "length (dropWhile P cs) < length s" "length cs < length s"
      using Cons length_dropWhile_le [of P cs] by simp_all
    then have ih: "maximalRuns Q (map f (dropWhile P cs)) = maximalRuns P (dropWhile P cs)"
      "maximalRuns Q (map f cs) = maximalRuns P cs"
      using less by blast+
    show ?thesis
      using Cons qp [of c] fx [of c] by (simp add: tw dw ih)
  qed
qed

lemma isWordChar_not_space: "isWordChar c \<Longrightarrow> \<not> isSpace c"
  by (auto simp: isWordChar_def isSpace_def isUpper_def isLower_def isDigit_def)

lemma replaceNonWord_keeps: "isWordChar c \<Longrightarrow> replaceNonWord c = c"
  by (simp add: replaceNonWord_def)

lemma replaceNonWord_space_iff: "\<not> isSpace (replaceNonWord c) \<longleftrightarrow> isWordChar c"
proof -
  have "isSpace CHR '' ''" by (simp add: isSpace_def)
  then show ?thesis
    using isWordChar_not_space [of c] by (auto simp: replaceNonWord_def)
qed

text \<open>
  C5 (as amended). \<open>tokenize\<close> lowercases the text, replaces every character that is
  neither a word character \<open>[A-Za-z0-9_]\<close> nor whitespace by a space, splits at the runs
  of whitespace and drops the pieces of length at most 2. What it returns is therefore, in
  order, the maximal runs of word characters of the lowercased text that are longer than 2:
  every other character, whitespace or not, only separates tokens, and the underscore, which
  belongs to \<open>\w\<close>, is kept inside a token. So every token has at least 3 characters, and
  each of them is a lowercase letter, a digit or an underscore.
\<close>

theorem tokenize_tokens:
  "tokenize s = filter (\<lambda>w. length w > 2) (maximalRuns isWordChar (toLowerCase s)) \<and>
   (\<forall>t \<in> set (tokenize s).
      3 \<le> length t \<and> (\<forall>c \<in> set t. isLower c \<or> isDigit c \<or> c = CHR ''_''))"
proof (intro conjI ballI)
  have "maximalRuns (\<lambda>c. \<not> isSpace c) (map replaceNonWord (toLowerCase s)) =
        maximalRuns isWordChar (toLowerCase s)"
    by (rule maximalRuns_map) (simp_all add: replaceNonWord_space_iff replaceNonWord_keeps)
  then show "tokenize s = filter (\<lambda>w. length w > 2) (maximalRuns isWordChar (toLowerCase s))"
    by (simp add: tokenize_def filter_split_ws_maximalRuns)
next
  fix t assume t: "t \<in> set (tokenize s)"
  then show "3 \<le> length t"
    by (simp add: tokenize_def)
  fix c assume c: "c \<in> set t"
  from t have "t \<in> set (split_ws (map replaceNonWord (toLowerCase s)))"
    by (simp add: tokenize_def)
  from split_ws_chars [OF this c]
  have "c \<in> set (map replaceNonWord (toLowerCase s))" and "\<not> isSpace c"
    by blast+
  then show "isLower c \<or> isDigit c \<or> c = CHR ''_''"
    by (rule replaced_lower_char)
qed

theorem tokenize_tokens_witness:
  "maximalRuns isWordChar (toLowerCase ''Rust is memory_safe!'') =
     [''rust'', ''is'', ''memory_safe''] \<and>
   tokenize ''Rust is memory_safe!'' = [''rust'', ''memory_safe''] \<and>
   3 \<le> length ''rust'' \<and> 3 \<le> length ''memory_safe'' \<and>
   list_all (\<lambda>c. isLower c \<or> isDigit c \<or> c = CHR ''_'') ''rust'' \<and>
   list_all (\<lambda>c. isLower c \<or> isDigit c \<or> c = CHR ''_'') ''memory_safe''"
proof -
  have ev: "maximalRuns isWordChar (toLowerCase ''Rust is memory_safe!'') =
     [''rust'', ''is'', ''memory_safe'']"
    by code_simp
  from tokenize_tokens [of "''Rust is memory_safe!''"]
  have tk: "tokenize ''Rust is memory_safe!'' = [''rust'', ''memory_safe'']"
    and al: "\<forall>t \<in> set (tokenize ''Rust is memory_safe!'').
          3 \<le> length t \<and> (\<forall>c \<in> set t. isLower c \<or> isDigit c \<or> c = CHR ''_'')"
    unfolding ev by simp_all
  from al show ?thesis
    unfolding tk ev list_all_iff by simp
qed

text \<open>
  C5 as stated fails at the text \<open>a_b\<close>: the underscore is neither alphanumeric nor
  whitespace, yet it is not replaced by a space, and the token \<open>a_b\<close> contains it.
\<close>

theorem tokenize_alnum_counterexample:
  "tokenize ''a_b'' = [''a_b''] \<and> replaceNonWord CHR ''_'' = CHR ''_'' \<and>
   CHR ''_'' \<in> set ''a_b'' \<and>
   \<not> (isLower CHR ''_'' \<or> isUpper CHR ''_'' \<or> isDigit CHR ''_'' \<or> isSpace CHR ''_'')"
  by code_simp

text \<open>A query with a token is not blank: a token has a character that is not whitespace.\<close>

lemma toLowerChar_space: "isSpace c \<Longrightarrow> toLowerChar c = c"
  by (auto simp: isSpace_def toLowerChar_def)

lemma tokenize_nonempty_not_blank:
  assumes "tokenize query \<noteq> []"
  shows "\<not> (\<forall>c \<in> set query. isSpace c)"
proof
  assume blank: "\<forall>c \<in> set query. isSpace c"
  from assms obtain t where t: "t \<in> set (tokenize query)"
    by (cases "tokenize query") auto
  then have ts: "t \<in> set (split_ws (map replaceNonWord (toLowerCase query)))"
    and tne: "t \<noteq> []"
    by (auto simp: tokenize_def)
  from tne have "\<exists>d. d \<in> set t" by (cases t) auto
  then obtain d where d: "d \<in> set t" ..
  from split_ws_chars [OF ts d]
  obtain x where x: "x \<in> set query" "d = replaceNonWord (toLowerChar x)" and ns: "\<not> isSpace d"
    by (auto simp: toLowerCase_def)
  from blank x(1) have sx: "isSpace x" by blast
  then have "d = x"
    using x(2) by (simp add: toLowerChar_space replaceNonWord_def)
  with sx ns show False by simp
qed

section \<open>Properties of the trending ranking\<close>

lemma set_slice0: "set (slice0 limit xs) \<subseteq> set xs"
  by (auto simp: slice0_def dest: in_set_takeD)

lemma slice0_all: "int (length xs) \<le> limit \<Longrightarrow> slice0 limit xs = xs"
  by (simp add: slice0_def)

lemma truncate_calculateHotScore: "Article.truncate (calculateHotScore now a ul) = a"
  by (simp add: calculateHotScore_def Let_def Article.truncate_def Article.extend_def split: option.splits)

lemma createdAt_calculateHotScore: "createdAt (calculateHotScore now a ul) = createdAt a"
  by (simp add: calculateHotScore_def Let_def Article.extend_def split: option.splits)

lemma set_rankTrendingArticles:
  "set (rankTrendingArticles now articles filters limit) \<subseteq>
     (\<lambda>a. calculateHotScore now a (orDefault (useLogarithmicDecay filters) False)) `
       {a \<in> set articles. keepArticle now (orDefault (minLikes filters) 1)
              (orDefault (minComments filters) 0) (orDefault (maxAgeDays filters) 90) a}"
  using set_slice0 by (fastforce simp: rankTrendingArticles_def Let_def)

lemma set_rankTrendingArticles_all:
  assumes "int (length articles) \<le> limit"
  shows "set (rankTrendingArticles now articles filters limit) =
     (\<lambda>a. calculateHotScore now a (orDefault (useLogarithmicDecay filters) False)) `
       {a \<in> set articles. keepArticle now (orDefault (minLikes filters) 1)
              (orDefault (minComments filters) 0) (orDefault (maxAgeDays filters) 90) a}"
proof -
  let ?kept = "filter (keepArticle now (orDefault (minLikes filters) 1)
              (orDefault (minComments filters) 0) (orDefault (maxAgeDays filters) 90)) articles"
  have "length ?kept \<le> length articles" by simp
  with assms have "int (length ?kept) \<le> limit" by linarith
  then show ?thesis
    by (simp add: rankTrendingArticles_def Let_def slice0_all) 
qed

lemma calculateHotScore_inj: "calculateHotScore now a ul = calculateHotScore now a' ul \<Longrightarrow> a = a'"
  by (metis truncate_calculateHotScore)

lemma id_a_calculateHotScore: "id_a (calculateHotScore now a ul) = id_a a"
  by (simp add: calculateHotScore_def Let_def Article.extend_def split: option.splits)

text \<open>
  C6. An article passes the engagement filter of \<open>rankTrendingArticles\<close> when
  \<open>likesCount >= minLikes\<close> or \<open>commentsCount >= minComments\<close>, and is rejected by it
  exactly when it fails both thresholds. First on the callback of the filter, for every
  article and all thresholds: it keeps the article if and only if one of the two engagement
  thresholds is met and the age filter does not reject. Then on the result: for an article
  of the collection that the age filter lets through, and a limit that does not truncate,
  the scored article is in the ranking if and only if one of the two thresholds is met. The
  thresholds are those of the filter object, with the defaults 1 and 0 where it gives none.
\<close>

theorem engagement_filter_passes_on_either_threshold:
  "(keepArticle now minL minC maxA a \<longleftrightarrow>
      (minL \<le> real_of_int (likesCount a) \<or> minC \<le> real_of_int (commentsCount a)) \<and>
      \<not> (maxA > 0 \<and> daysOld now (createdAt a) > maxA)) \<and>
   (a \<in> set articles \<and>
    \<not> (orDefault (maxAgeDays filters) 90 > 0 \<and>
       daysOld now (createdAt a) > orDefault (maxAgeDays filters) 90) \<and>
    int (length articles) \<le> limit \<longrightarrow>
      (calculateHotScore now a (orDefault (useLogarithmicDecay filters) False)
         \<in> set (rankTrendingArticles now articles filters limit)
       \<longleftrightarrow> orDefault (minLikes filters) 1 \<le> real_of_int (likesCount a) \<or>
           orDefault (minComments filters) 0 \<le> real_of_int (commentsCount a)))"
proof (intro conjI impI)
  show "keepArticle now minL minC maxA a \<longleftrightarrow>
      (minL \<le> real_of_int (likesCount a) \<or> minC \<le> real_of_int (commentsCount a)) \<and>
      \<not> (maxA > 0 \<and> daysOld now (createdAt a) > maxA)"
    by (auto simp: keepArticle_def)
next
  assume asm: "a \<in> set articles \<and>
    \<not> (orDefault (maxAgeDays filters) 90 > 0 \<and>
       daysOld now (createdAt a) > orDefault (maxAgeDays filters) 90) \<and>
    int (length articles) \<le> limit"
  then have len: "int (length articles) \<le> limit" by simp
  have "calculateHotScore now a (orDefault (useLogarithmicDecay filters) False)
           \<in> set (rankTrendingArticles now articles filters limit)
        \<longleftrightarrow> keepArticle now (orDefault (minLikes filters) 1)
              (orDefault (minComments filters) 0) (orDefault (maxAgeDays filters) 90) a"
    unfolding set_rankTrendingArticles_all [OF len]
    using asm by (auto dest: calculateHotScore_inj)
  also have "\<dots> \<longleftrightarrow> orDefault (minLikes filters) 1 \<le> real_of_int (likesCount a) \<or>
             orDefault (minComments filters) 0 \<le> real_of_int (commentsCount a)"
    using asm by (auto simp: keepArticle_def)
  finally show "calculateHotScore now a (orDefault (useLogarithmicDecay filters) False)
         \<in> set (rankTrendingArticles now articles filters limit)
       \<longleftrightarrow> orDefault (minLikes filters) 1 \<le> real_of_int (likesCount a) \<or>
           orDefault (minComments filters) 0 \<le> real_of_int (commentsCount a)" .
qed

theorem engagement_filter_passes_on_either_threshold_witness:
  "art_quiet \<in> set [art_quiet] \<and>
   \<not> (orDefault (maxAgeDays strictFilters) 90 > 0 \<and>
      daysOld (100 * day) (createdAt art_quiet) > orDefault (maxAgeDays strictFilters) 90) \<and>
   int (length [art_quiet]) \<le> 20 \<and>
   \<not> orDefault (minLikes strictFilters) 1 \<le> real_of_int (likesCount art_quiet) \<and>
   orDefault (minComments strictFilters) 0 \<le> real_of_int (commentsCount art_quiet) \<and>
   keepArticle (100 * day) 5 2 0 art_quiet \<and>
   calculateHotScore (100 * day) art_quiet False
     \<in> set (rankTrendingArticles (100 * day) [art_quiet] strictFilters 20)"
proof -
  have f: "orDefault (maxAgeDays strictFilters) 90 = 0"
    "orDefault (minLikes strictFilters) 1 = 5" "orDefault (minComments strictFilters) 0 = 2"
    "orDefault (useLogarithmicDecay strictFilters) False = False"
    by (simp_all add: strictFilters_def orDefault_def)
  have a: "likesCount art_quiet = 0" "commentsCount art_quiet = 3"
    by (simp_all add: art_quiet_def)
  from engagement_filter_passes_on_either_threshold
    [of "100 * day" 5 2 0 art_quiet "[art_quiet]" strictFilters 20]
  show ?thesis
    by (simp add: f a)
qed

text \<open>
  C8. \<open>getTrendingArticlesByPeriod(articles, "WEEK", limit)\<close> returns no article older than
  7 days at the time of the call, whatever its engagement counters, and every record it
  returns is one of the given articles with its scores added.
\<close>

theorem week_excludes_old:
  "\<forall>t \<in> set (getTrendingArticlesByPeriod now articles WEEK limit).
     daysOld now (createdAt t) \<le> 7 \<and> Article.truncate t \<in> set articles"
proof
  fix t assume "t \<in> set (getTrendingArticlesByPeriod now articles WEEK limit)"
  then obtain a where a: "a \<in> set articles" "keepArticle now 1 0 7 a"
      and t: "t = calculateHotScore now a False"
    using set_rankTrendingArticles [of now articles
        "\<lparr>minLikes = Some 1, minComments = Some 0, maxAgeDays = Some 7,
            useLogarithmicDecay = Some False\<rparr>" limit]
    by (auto simp: getTrendingArticlesByPeriod_def orDefault_def)
  from a(2) have "daysOld now (createdAt a) \<le> 7"
    by (simp add: keepArticle_def split: if_splits)
  with a(1) t show "daysOld now (createdAt t) \<le> 7 \<and> Article.truncate t \<in> set articles"
    by (simp add: createdAt_calculateHotScore truncate_calculateHotScore)
qed

theorem week_excludes_old_witness:
  "daysOld (100 * day) (createdAt art_young) = 1 \<and>
   daysOld (100 * day) (createdAt art_old) = 10 \<and>
   getTrendingArticlesByPeriod (100 * day) [art_young, art_old] WEEK 5 =
     [calculateHotScore (100 * day) art_young False] \<and>
   list_all (\<lambda>t. daysOld (100 * day) (createdAt t) \<le> 7)
     (getTrendingArticlesByPeriod (100 * day) [art_young, art_old] WEEK 5)"
proof -
  have d: "daysOld (100 * day) (createdAt art_young) = 1"
    "daysOld (100 * day) (createdAt art_old) = 10"
    by (simp_all add: daysOld_def day_def art_young_def art_old_def)
  have c: "likesCount art_young = 1" "commentsCount art_young = 0"
    "likesCount art_old = 1000" "commentsCount art_old = 500"
    by (simp_all add: art_young_def art_old_def)
  have "getTrendingArticlesByPeriod (100 * day) [art_young, art_old] WEEK 5 =
     [calculateHotScore (100 * day) art_young False]"
    by (simp add: getTrendingArticlesByPeriod_def rankTrendingArticles_def orDefault_def
        keepArticle_def d c slice0_def)
  moreover
  have "list_all (\<lambda>t. daysOld (100 * day) (createdAt t) \<le> 7)
     (getTrendingArticlesByPeriod (100 * day) [art_young, art_old] WEEK 5)"
    unfolding list_all_iff
    using week_excludes_old [of "100 * day" "[art_young, art_old]" 5] by blast
  ultimately show ?thesis
    using d by simp
qed

text \<open>
  C9. With the default filters (\<open>minLikes = 1\<close>, \<open>minComments = 0\<close>, \<open>maxAgeDays = 90\<close>)
  the engagement filter of \<open>rankTrendingArticles\<close> never rejects an article whose
  \<open>commentsCount\<close> is not negative: rejecting needs \<open>commentsCount < 0\<close>, so the callback keeps
  the article if and only if it is at most 90 days old, whatever its likes. When no comment
  counter of the collection is negative, the ranking is that of the articles at most 90
  days old: only the age filter excludes articles.
\<close>

theorem default_filters_only_age_excludes:
  "(0 \<le> commentsCount a \<longrightarrow>
      (keepArticle now (orDefault (minLikes noFilters) 1) (orDefault (minComments noFilters) 0)
         (orDefault (maxAgeDays noFilters) 90) a
       \<longleftrightarrow> daysOld now (createdAt a) \<le> 90)) \<and>
   ((\<forall>a \<in> set articles. 0 \<le> commentsCount a) \<longrightarrow>
      rankTrendingArticles now articles noFilters limit =
        slice0 limit (sort_key (\<lambda>t. - hotScore t)
          (map (\<lambda>a. calculateHotScore now a False)
             (filter (\<lambda>a. daysOld now (createdAt a) \<le> 90) articles))))"
proof (intro conjI impI)
  assume "0 \<le> commentsCount a"
  then show "keepArticle now (orDefault (minLikes noFilters) 1)
         (orDefault (minComments noFilters) 0) (orDefault (maxAgeDays noFilters) 90) a
       \<longleftrightarrow> daysOld now (createdAt a) \<le> 90"
    by (auto simp: keepArticle_def noFilters_def orDefault_def)
next
  assume "\<forall>a \<in> set articles. 0 \<le> commentsCount a"
  then have "filter (keepArticle now 1 0 90) articles =
        filter (\<lambda>a. daysOld now (createdAt a) \<le> 90) articles"
    by (intro filter_cong) (auto simp: keepArticle_def)
  then show "rankTrendingArticles now articles noFilters limit =
        slice0 limit (sort_key (\<lambda>t. - hotScore t)
          (map (\<lambda>a. calculateHotScore now a False)
             (filter (\<lambda>a. daysOld now (createdAt a) \<le> 90) articles)))"
    by (simp add: rankTrendingArticles_def noFilters_def orDefault_def)
qed

theorem default_filters_only_age_excludes_witness:
  "list_all (\<lambda>a. 0 \<le> commentsCount a) [art_fresh, art_stale] \<and>
   likesCount art_fresh < 1 \<and>
   daysOld (100 * day) (createdAt art_fresh) = 1 \<and>
   daysOld (100 * day) (createdAt art_stale) = 100 \<and>
   keepArticle (100 * day) (orDefault (minLikes noFilters) 1)
     (orDefault (minComments noFilters) 0) (orDefault (maxAgeDays noFilters) 90) art_fresh \<and>
   rankTrendingArticles (100 * day) [art_fresh, art_stale] noFilters 20 =
     [calculateHotScore (100 * day) art_fresh False]"
proof -
  have d: "daysOld (100 * day) (createdAt art_fresh) = 1"
    "daysOld (100 * day) (createdAt art_stale) = 100"
    by (simp_all add: daysOld_def day_def art_fresh_def art_stale_def)
  have c: "likesCount art_fresh = 0" "commentsCount art_fresh = 0" "commentsCount art_stale = 3"
    by (simp_all add: art_fresh_def art_stale_def)
  from default_filters_only_age_excludes [of art_fresh "100 * day" "[art_fresh, art_stale]" 20]
  show ?thesis
    by (simp add: d c slice0_def)
qed

section \<open>Properties of the BM25 ranking\<close>

lemma forEachM_stop_words:
  "\<forall>t \<in> set ts. t \<in> STOP_WORDS \<Longrightarrow>
   forEachM (scoreTerm k1 b doc toks len docs idx avg) ts s = Some s"
  by (induction ts) (simp_all add: scoreTerm_def)

lemma forEachM_total:
  "(\<And>x s. x \<in> set xs \<Longrightarrow> f x s \<noteq> None) \<Longrightarrow> forEachM f xs s \<noteq> None"
proof (induction xs arbitrary: s)
  case Nil
  then show ?case by simp
next
  case (Cons x xs)
  from Cons.prems [of x s] obtain s' where "f x s = Some s'" by auto
  with Cons.IH [of s'] Cons.prems show ?case by simp
qed

lemma those_map_Some:
  "(\<And>x. x \<in> set xs \<Longrightarrow> f x = Some (g x)) \<Longrightarrow> those (map f xs) = Some (map g xs)"
  by (induction xs) simp_all

lemma those_map_total:
  "(\<And>x. x \<in> set xs \<Longrightarrow> f x \<noteq> None) \<Longrightarrow> those (map f xs) \<noteq> None"
proof (induction xs)
  case Nil
  then show ?case by simp
next
  case (Cons x xs)
  from Cons.prems [of x] obtain y where "f x = Some y" by auto
  moreover from Cons obtain ys where "those (map f xs) = Some ys" by auto
  ultimately show ?case by simp
qed

lemma those_map_elem:
  "those (map f xs) = Some ys \<Longrightarrow> y \<in> set ys \<Longrightarrow> \<exists>x \<in> set xs. f x = Some y"
proof (induction xs arbitrary: ys)
  case Nil
  then show ?case by simp
next
  case (Cons x xs)
  then show ?case
    by (auto split: option.splits)
qed

lemma set_fold_setAdd: "set (fold setAdd xs acc) = set xs \<union> set acc"
  by (induction xs arbitrary: acc) (auto simp: setAdd_def)

lemma fold_index_token_dom:
  "fold (\<lambda>token index.
           if token \<notin> STOP_WORDS
           then index(token \<mapsto> insert i (orDefault (index token) {}))
           else index) ts idx term \<noteq> None
   \<Longrightarrow> idx term \<noteq> None \<or> term \<in> set ts"
proof (induction ts arbitrary: idx)
  case Nil
  then show ?case by simp
next
  case (Cons t ts)
  from Cons.prems have "fold (\<lambda>token index.
           if token \<notin> STOP_WORDS
           then index(token \<mapsto> insert i (orDefault (index token) {}))
           else index) ts (if t \<notin> STOP_WORDS
           then idx(t \<mapsto> insert i (orDefault (idx t) {}))
           else idx) term \<noteq> None"
    by simp
  from Cons.IH [OF this] show ?case
    by (auto split: if_splits)
qed

lemma indexDocument_dom:
  "indexDocument d idx term \<noteq> None \<Longrightarrow> idx term \<noteq> None \<or> term \<in> set (tokenize (text_d d))"
  unfolding indexDocument_def Let_def
  by (drule fold_index_token_dom) (simp add: set_fold_setAdd)

lemma fold_indexDocument_dom:
  "fold indexDocument docs idx term \<noteq> None \<Longrightarrow>
   idx term \<noteq> None \<or> (\<exists>d \<in> set docs. term \<in> set (tokenize (text_d d)))"
proof (induction docs arbitrary: idx)
  case Nil
  then show ?case by simp
next
  case (Cons d docs)
  from Cons.prems have "fold indexDocument docs (indexDocument d idx) term \<noteq> None"
    by simp
  from Cons.IH [OF this] show ?case
    using indexDocument_dom [of d idx "term"] by auto
qed

lemma calculateIDF_pos_occurs:
  assumes "0 < calculateIDF term docs (buildInvertedIndex docs)"
  shows "\<exists>d \<in> set docs. term \<in> set (tokenize (text_d d))"
proof -
  from assms have "buildInvertedIndex docs term \<noteq> None"
    by (auto simp: calculateIDF_def Let_def split: option.splits if_splits)
  then show ?thesis
    unfolding buildInvertedIndex_def by (drule_tac fold_indexDocument_dom) simp
qed

lemma foldl_totalLength:
  "foldl (\<lambda>sum doc. sum + real (length (tokenize (text_d doc)))) a docs =
   a + real (sum_list (map (\<lambda>doc. length (tokenize (text_d doc))) docs))"
  by (induction docs arbitrary: a) simp_all

lemma calculateAvgDocLength_Some:
  "calculateAvgDocLength docs =
     Some (if docs = [] then 0
           else real (sum_list (map (\<lambda>doc. length (tokenize (text_d doc))) docs)) /
                real (length docs))"
  by (simp add: calculateAvgDocLength_def foldl_totalLength divide_def)

lemma calculateAvgDocLength_pos:
  assumes "d \<in> set docs" and "term \<in> set (tokenize (text_d d))"
    and "calculateAvgDocLength docs = Some avg"
  shows "0 < avg"
proof -
  from assms(2) have "0 < length (tokenize (text_d d))"
    by (cases "tokenize (text_d d)") auto
  moreover from assms(1)
  have "length (tokenize (text_d d)) \<le> sum_list (map (\<lambda>doc. length (tokenize (text_d doc))) docs)"
    by (intro member_le_sum_list) auto
  ultimately have "0 < sum_list (map (\<lambda>doc. length (tokenize (text_d doc))) docs)"
    by linarith
  moreover from assms(1) have "docs \<noteq> []" by auto
  ultimately show ?thesis
    using assms(3) by (auto simp: calculateAvgDocLength_Some)
qed

text \<open>
  With the default parameters the two divisors of a term's score are bounded away from zero:
  the average length by one token over the number of documents, the BM25 denominator by
  \<open>1.5 \<times> 0.25\<close>.
\<close>

lemma calculateAvgDocLength_lower:
  assumes "d \<in> set docs" and "term \<in> set (tokenize (text_d d))"
    and "calculateAvgDocLength docs = Some avg"
  shows "1 / real (length docs) \<le> avg"
proof -
  from assms(2) have "1 \<le> length (tokenize (text_d d))"
    by (cases "tokenize (text_d d)") auto
  moreover from assms(1)
  have "length (tokenize (text_d d)) \<le> sum_list (map (\<lambda>doc. length (tokenize (text_d doc))) docs)"
    by (intro member_le_sum_list) auto
  ultimately have "1 \<le> real (sum_list (map (\<lambda>doc. length (tokenize (text_d doc))) docs))"
    by linarith
  moreover from assms(1) have "docs \<noteq> []" by auto
  ultimately show ?thesis
    using assms(3) by (auto simp: calculateAvgDocLength_Some divide_right_mono)
qed

lemma default_denominator_lower:
  assumes "0 \<le> calculateTF term toks" and "0 \<le> ratio"
  shows "3 / 8 \<le> calculateTF term toks + 1.5 * (1 - 0.75 + 0.75 * ratio)"
proof -
  have "1.5 * (1 - 0.75 + 0.75 * ratio) = 3 / 8 + 9 / 8 * ratio"
    by (simp add: algebra_simps)
  moreover have "0 \<le> 9 / 8 * ratio"
    using assms(2) by simp
  ultimately show ?thesis
    using assms(1) by linarith
qed

lemma scoreTerm_total:
  assumes avg: "calculateAvgDocLength docs = Some avg"
    and k1: "0 < k1" and b: "0 \<le> b" "b < 1"
  shows "scoreTerm k1 b doc toks (real (length toks)) docs (buildInvertedIndex docs) avg term s
           \<noteq> None"
proof (cases "term \<in> STOP_WORDS \<or> calculateIDF term docs (buildInvertedIndex docs) \<le> 0")
  case True
  then show ?thesis by (auto simp: scoreTerm_def Let_def)
next
  case False
  then have "0 < calculateIDF term docs (buildInvertedIndex docs)" by simp
  from calculateIDF_pos_occurs [OF this] avg have pos: "0 < avg"
    by (auto intro: calculateAvgDocLength_pos)
  define r where "r = real (length toks) / avg"
  have r: "0 \<le> r" using pos by (simp add: r_def)
  have "0 \<le> b * r" using b(1) r by simp
  with b(2) have "0 < 1 - b + b * r" by linarith
  with k1 have "0 < k1 * (1 - b + b * r)" by simp
  moreover have "0 \<le> calculateTF term toks"
    by (simp add: calculateTF_def)
  ultimately have "calculateTF term toks + k1 * (1 - b + b * r) \<noteq> 0"
    by linarith
  with False pos show ?thesis
    by (simp add: scoreTerm_def Let_def divide_def r_def)
qed

lemma rankDocumentsWithBM25_total:
  assumes "0 < orDefault (k1_cfg config) 1.5"
    and "0 \<le> orDefault (b_cfg config) 0.75" and "orDefault (b_cfg config) 0.75 < 1"
  shows "rankDocumentsWithBM25 query documents config \<noteq> None"
proof (cases "trim query = [] \<or> documents = []")
  case True
  then show ?thesis by (auto simp: rankDocumentsWithBM25_def)
next
  case False
  obtain avg where avg: "calculateAvgDocLength documents = Some avg"
    by (simp add: calculateAvgDocLength_Some)
  have "calculateBM25Score query doc documents (buildInvertedIndex documents) avg config \<noteq> None"
    for doc
    unfolding calculateBM25Score_def Let_def
    by (intro forEachM_total scoreTerm_total avg assms)
  then have "those (map (\<lambda>doc.
                        map_option (\<lambda>score. Document.extend doc (ScoredDocument.fields score))
                          (calculateBM25Score query doc documents (buildInvertedIndex documents) avg
                             config))
                      documents) \<noteq> None"
    by (intro those_map_total) simp
  with False avg show ?thesis
    by (auto simp: rankDocumentsWithBM25_def Let_def)
qed

lemma trim_empty_iff: "trim s = [] \<longleftrightarrow> (\<forall>c \<in> set s. isSpace c)"
proof -
  have "trim s = [] \<longleftrightarrow> (\<forall>c \<in> set (dropWhile isSpace s). isSpace c)"
    by (auto simp: trim_def dropWhile_eq_Nil_conv dest: set_dropWhileD)
  also have "\<dots> \<longleftrightarrow> dropWhile isSpace s = []"
  proof (cases "dropWhile isSpace s")
    case Nil
    then show ?thesis by (simp del: dropWhile_eq_Nil_conv)
  next
    case (Cons c cs)
    with hd_dropWhile [of isSpace s] have "\<not> isSpace c" by simp
    with Cons show ?thesis by (auto simp del: dropWhile_eq_Nil_conv)
  qed
  also have "\<dots> \<longleftrightarrow> (\<forall>c \<in> set s. isSpace c)"
    by (simp add: dropWhile_eq_Nil_conv)
  finally show ?thesis .
qed

lemma truncate_extend_Document: "Document.truncate (Document.extend doc x) = doc"
  by (cases doc) (simp add: Document.truncate_def Document.extend_def)

lemma rankDocumentsWithBM25_regular:
  assumes "\<not> (trim query = [] \<or> documents = [])"
    and "rankDocumentsWithBM25 query documents config = Some rs"
  shows "\<exists>scoredDocs.
           those (map (\<lambda>doc.
                   map_option (\<lambda>score. Document.extend doc (ScoredDocument.fields score))
                     (calculateBM25Score query doc documents (buildInvertedIndex documents)
                        (the (calculateAvgDocLength documents)) config))
                 documents) = Some scoredDocs \<and>
           rs = sort_key (\<lambda>doc. - score doc) (filter (\<lambda>doc. score doc > 0) scoredDocs)"
  using assms by (auto simp: rankDocumentsWithBM25_def Let_def split: option.splits)

subsection \<open>The ranking on the example documents\<close>

lemmas ex_defs = doc_rust_def doc_pasta_def doc_garden_def exampleDocuments_def defaultConfig_def

lemma tok_rust: "tokenize ''rust'' = [''rust'']" by code_simp
lemma tok_a: "tokenize ''rust memory safety'' = [''rust'', ''memory'', ''safety'']" by code_simp
lemma tok_b: "tokenize ''cooking pasta'' = [''cooking'', ''pasta'']" by code_simp
lemma tok_c: "tokenize ''gardening tips today'' = [''gardening'', ''tips'', ''today'']" by code_simp
lemma rust_not_stop: "''rust'' \<notin> STOP_WORDS" by code_simp
lemma idx_rust: "buildInvertedIndex exampleDocuments ''rust'' = Some {''a''}"
  unfolding ex_defs by code_simp
lemma boost_a: "fieldBoost doc_rust ''rust'' = 2"
  unfolding ex_defs by (simp add: fieldBoost_def) code_simp

lemma idf_rust: "calculateIDF ''rust'' exampleDocuments (buildInvertedIndex exampleDocuments) = ln (5 / 3)"
  by (simp add: calculateIDF_def idx_rust) (simp add: exampleDocuments_def)

lemma avg_ex: "calculateAvgDocLength exampleDocuments = Some (8 / 3)"
  by (simp add: calculateAvgDocLength_Some ex_defs tok_a tok_b tok_c)

lemma ln53: "0 < ln (5 / 3 :: real)" by simp

lemma score_a: "calculateBM25Score ''rust'' doc_rust exampleDocuments
    (buildInvertedIndex exampleDocuments) (8 / 3) defaultConfig = Some (ln (5 / 3) * 320 / 169)"
  using ln53 
  apply (simp add: calculateBM25Score_def tok_rust scoreTerm_def rust_not_stop idf_rust boost_a Let_def
     orDefault_def defaultConfig_def divide_def calculateTF_def)
  apply (simp add: doc_rust_def tok_a)
  done

lemma tf_b: "calculateTF ''rust'' (tokenize (text_d doc_pasta)) = 0"
  by (simp add: doc_pasta_def tok_b calculateTF_def)
lemma tf_c: "calculateTF ''rust'' (tokenize (text_d doc_garden)) = 0"
  by (simp add: doc_garden_def tok_c calculateTF_def)

lemma score_b: "calculateBM25Score ''rust'' doc_pasta exampleDocuments
    (buildInvertedIndex exampleDocuments) (8 / 3) defaultConfig = Some 0"
  using ln53 
  by (simp add: calculateBM25Score_def tok_rust scoreTerm_def rust_not_stop idf_rust Let_def
     orDefault_def defaultConfig_def divide_def tf_b)

lemma score_c: "calculateBM25Score ''rust'' doc_garden exampleDocuments
    (buildInvertedIndex exampleDocuments) (8 / 3) defaultConfig = Some 0"
  using ln53 
  by (simp add: calculateBM25Score_def tok_rust scoreTerm_def rust_not_stop idf_rust Let_def
     orDefault_def defaultConfig_def divide_def tf_c)

lemma map_exampleDocuments:
  "map f exampleDocuments = [f doc_rust, f doc_pasta, f doc_garden]"
  by (simp add: exampleDocuments_def)

lemma length_exampleDocuments: "length exampleDocuments = 3"
  by (simp add: exampleDocuments_def)

lemma rank_rust: "rankDocumentsWithBM25 ''rust'' exampleDocuments defaultConfig =
   Some [Document.extend doc_rust (ScoredDocument.fields (ln (5 / 3) * 320 / 169))]"
proof -
  have t: "trim ''rust'' \<noteq> []" by code_simp
  have s: "score (Document.extend d (ScoredDocument.fields x)) = x" for d x
    by (simp add: Document.extend_def ScoredDocument.fields_def)
  show ?thesis
    using ln53
    by (simp add: rankDocumentsWithBM25_def t avg_ex Let_def map_exampleDocuments
        length_exampleDocuments score_a score_b score_c s)
qed

lemma score_a_zero_avg: "calculateBM25Score ''rust'' doc_rust exampleDocuments
    (buildInvertedIndex exampleDocuments) 0 defaultConfig = None"
  using ln53
  by (simp add: calculateBM25Score_def tok_rust scoreTerm_def rust_not_stop idf_rust Let_def
     divide_def)

lemma score_b_zero_k1: "calculateBM25Score ''rust'' doc_pasta exampleDocuments
    (buildInvertedIndex exampleDocuments) (8 / 3) zeroK1Config = None"
  using ln53
  by (simp add: calculateBM25Score_def tok_rust scoreTerm_def rust_not_stop idf_rust Let_def
     orDefault_def zeroK1Config_def divide_def tf_b)

lemma rank_zero_k1: "rankDocumentsWithBM25 ''rust'' exampleDocuments zeroK1Config = None"
proof -
  have t: "trim ''rust'' \<noteq> []" by code_simp
  show ?thesis
    by (simp add: rankDocumentsWithBM25_def t avg_ex Let_def map_exampleDocuments
        length_exampleDocuments score_b_zero_k1 split: option.splits)
qed

lemma tok_the_and: "tokenize ''The and!'' = [''the'', ''and'']" by code_simp


subsection \<open>The claims on the BM25 ranking\<close>

text \<open>
  C3. When the query is empty or consists of whitespace only, or the collection is empty,
  \<open>rankDocumentsWithBM25\<close> returns every input document, in the input order, with the
  score 0 added and none filtered out. That path is not the regular one: on every other
  input each returned document has a positive score and is one of the input documents, and
  the scores are in descending order.
\<close>

theorem blank_query_or_empty_collection_passes_through:
  "((\<forall>c \<in> set query. isSpace c) \<or> documents = [] \<longrightarrow>
      rankDocumentsWithBM25 query documents config =
        Some (map (\<lambda>doc. Document.extend doc (ScoredDocument.fields 0)) documents)) \<and>
   (\<not> ((\<forall>c \<in> set query. isSpace c) \<or> documents = []) \<longrightarrow>
      (\<forall>rs. rankDocumentsWithBM25 query documents config = Some rs \<longrightarrow>
         (\<forall>r \<in> set rs. 0 < score r \<and> Document.truncate r \<in> set documents) \<and>
         sorted_wrt (\<lambda>x y. score y \<le> score x) rs))"
proof (intro conjI impI allI)
  assume "(\<forall>c \<in> set query. isSpace c) \<or> documents = []"
  then show "rankDocumentsWithBM25 query documents config =
        Some (map (\<lambda>doc. Document.extend doc (ScoredDocument.fields 0)) documents)"
    by (auto simp: rankDocumentsWithBM25_def trim_empty_iff)
next
  fix rs
  assume "\<not> ((\<forall>c \<in> set query. isSpace c) \<or> documents = [])"
    and rs: "rankDocumentsWithBM25 query documents config = Some rs"
  then have "\<not> (trim query = [] \<or> documents = [])"
    by (simp add: trim_empty_iff)
  from rankDocumentsWithBM25_regular [OF this rs] obtain scoredDocs where
    sd: "those (map (\<lambda>doc.
                   map_option (\<lambda>score. Document.extend doc (ScoredDocument.fields score))
                     (calculateBM25Score query doc documents (buildInvertedIndex documents)
                        (the (calculateAvgDocLength documents)) config))
                 documents) = Some scoredDocs"
    and rs_eq: "rs = sort_key (\<lambda>doc. - score doc) (filter (\<lambda>doc. score doc > 0) scoredDocs)"
    by blast
  show "\<forall>r \<in> set rs. 0 < score r \<and> Document.truncate r \<in> set documents"
  proof
    fix r assume "r \<in> set rs"
    with rs_eq have r: "r \<in> set scoredDocs" "0 < score r" by auto
    from those_map_elem [OF sd r(1)] obtain doc s where
      "doc \<in> set documents" "r = Document.extend doc (ScoredDocument.fields s)"
      by auto
    then have "Document.truncate r \<in> set documents"
      by (simp add: truncate_extend_Document)
    with r(2) show "0 < score r \<and> Document.truncate r \<in> set documents" ..
  qed
  have "sorted (map (\<lambda>doc. - score doc) rs)"
    unfolding rs_eq by (rule sorted_sort_key)
  then show "sorted_wrt (\<lambda>x y. score y \<le> score x) rs"
    by (simp add: sorted_map)
qed


theorem blank_query_or_empty_collection_passes_through_witness:
  "list_all isSpace ''  '' \<and>
   rankDocumentsWithBM25 ''  '' exampleDocuments defaultConfig =
     Some (map (\<lambda>doc. Document.extend doc (ScoredDocument.fields 0)) exampleDocuments) \<and>
   \<not> list_all isSpace ''rust'' \<and> exampleDocuments \<noteq> [] \<and>
   rankDocumentsWithBM25 ''rust'' exampleDocuments defaultConfig =
     Some [Document.extend doc_rust (ScoredDocument.fields (ln (5 / 3) * 320 / 169))] \<and>
   0 < score (Document.extend doc_rust (ScoredDocument.fields (ln (5 / 3) * 320 / 169))) \<and>
   Document.truncate (Document.extend doc_rust (ScoredDocument.fields (ln (5 / 3) * 320 / 169)))
     \<in> set exampleDocuments"
proof -
  have sp: "list_all isSpace ''  ''" by code_simp
  have nsp: "\<not> list_all isSpace ''rust''" by code_simp
  have ne: "exampleDocuments \<noteq> []" by (simp add: exampleDocuments_def)
  from sp blank_query_or_empty_collection_passes_through [of "''  ''" exampleDocuments defaultConfig]
  have 1: "rankDocumentsWithBM25 ''  '' exampleDocuments defaultConfig =
     Some (map (\<lambda>doc. Document.extend doc (ScoredDocument.fields 0)) exampleDocuments)"
    by (simp add: list_all_iff)
  from nsp ne rank_rust
    blank_query_or_empty_collection_passes_through [of "''rust''" exampleDocuments defaultConfig]
  have 2: "0 < score (Document.extend doc_rust (ScoredDocument.fields (ln (5 / 3) * 320 / 169))) \<and>
   Document.truncate (Document.extend doc_rust (ScoredDocument.fields (ln (5 / 3) * 320 / 169)))
     \<in> set exampleDocuments"
    by (simp add: list_all_iff)
  from sp nsp ne 1 2 rank_rust show ?thesis by simp
qed


lemma tok_is_it: "tokenize ''is it'' = []" by code_simp

text \<open>
  C4. For a collection that is not empty and a query whose tokens are all stop words, every
  document has the BM25 score 0. When the query has a token, and more generally when it has
  any character other than whitespace (the query \<open>is it\<close> has words but no token), the guard
  of the pass-through branch is false, and \<open>rankDocumentsWithBM25\<close> returns the empty list
  of the regular path, not the input documents of the pass-through branch.
\<close>

theorem stop_word_query_empty_result:
  assumes "documents \<noteq> []"
    and "\<forall>t \<in> set (tokenize query). t \<in> STOP_WORDS"
  shows "(\<forall>doc \<in> set documents.
            calculateBM25Score query doc documents (buildInvertedIndex documents) avg config
              = Some 0) \<and>
         (tokenize query \<noteq> [] \<or> \<not> (\<forall>c \<in> set query. isSpace c) \<longrightarrow>
            \<not> (trim query = [] \<or> length documents = 0) \<and>
            rankDocumentsWithBM25 query documents config = Some [] \<and>
            rankDocumentsWithBM25 query documents config \<noteq>
              Some (map (\<lambda>doc. Document.extend doc (ScoredDocument.fields 0)) documents))"
proof (intro conjI impI ballI)
  have zero: "calculateBM25Score query doc documents idx a config = Some 0" for doc idx a
    using assms(2) by (simp add: calculateBM25Score_def forEachM_stop_words)
  show "calculateBM25Score query doc documents (buildInvertedIndex documents) avg config = Some 0"
    for doc
    by (rule zero)
  assume "tokenize query \<noteq> [] \<or> \<not> (\<forall>c \<in> set query. isSpace c)"
  then have nb: "\<not> (\<forall>c \<in> set query. isSpace c)"
    using tokenize_nonempty_not_blank by blast
  with assms(1) show "\<not> (trim query = [] \<or> length documents = 0)"
    by (simp add: trim_empty_iff)
  have "those (map (\<lambda>doc.
                   map_option (\<lambda>score. Document.extend doc (ScoredDocument.fields score))
                     (calculateBM25Score query doc documents idx a config))
                 documents) =
        Some (map (\<lambda>doc. Document.extend doc (ScoredDocument.fields 0)) documents)" for idx a
    by (rule those_map_Some) (simp add: zero)
  moreover have "filter (\<lambda>doc. score doc > 0)
                   (map (\<lambda>doc. Document.extend doc (ScoredDocument.fields 0)) documents) = []"
    by (simp add: filter_empty_conv Document.extend_def ScoredDocument.fields_def)
  ultimately show r: "rankDocumentsWithBM25 query documents config = Some []"
    using assms(1) nb
    by (simp add: rankDocumentsWithBM25_def trim_empty_iff calculateAvgDocLength_Some)
  from r assms(1) show "rankDocumentsWithBM25 query documents config \<noteq>
              Some (map (\<lambda>doc. Document.extend doc (ScoredDocument.fields 0)) documents)"
    by simp
qed

theorem stop_word_query_empty_result_witness:
  "exampleDocuments \<noteq> [] \<and>
   tokenize ''The and!'' = [''the'', ''and''] \<and>
   list_all (\<lambda>t. t \<in> STOP_WORDS) (tokenize ''The and!'') \<and>
   calculateBM25Score ''The and!'' doc_rust exampleDocuments
     (buildInvertedIndex exampleDocuments) (8 / 3) defaultConfig = Some 0 \<and>
   rankDocumentsWithBM25 ''The and!'' exampleDocuments defaultConfig = Some [] \<and>
   tokenize ''is it'' = [] \<and> \<not> list_all isSpace ''is it'' \<and>
   rankDocumentsWithBM25 ''is it'' exampleDocuments defaultConfig = Some []"
proof -
  have ne: "exampleDocuments \<noteq> []" by (simp add: exampleDocuments_def)
  have st: "list_all (\<lambda>t. t \<in> STOP_WORDS) (tokenize ''The and!'')"
    unfolding tok_the_and by code_simp
  have mem: "doc_rust \<in> set exampleDocuments" by (simp add: exampleDocuments_def)
  from stop_word_query_empty_result [of exampleDocuments "''The and!''" "8 / 3" defaultConfig]
    ne st mem
  have 1: "calculateBM25Score ''The and!'' doc_rust exampleDocuments
     (buildInvertedIndex exampleDocuments) (8 / 3) defaultConfig = Some 0 \<and>
   rankDocumentsWithBM25 ''The and!'' exampleDocuments defaultConfig = Some []"
    by (simp add: list_all_iff tok_the_and)
  have nsp: "\<not> list_all isSpace ''is it''" by code_simp
  from stop_word_query_empty_result [of exampleDocuments "''is it''" "8 / 3" defaultConfig]
    ne nsp
  have 2: "rankDocumentsWithBM25 ''is it'' exampleDocuments defaultConfig = Some []"
    by (simp add: list_all_iff tok_is_it)
  from ne st 1 2 nsp show ?thesis
    by (simp add: tok_the_and tok_is_it)
qed

section \<open>Properties of the recommendations\<close>

subsection \<open>Recency decay\<close>

lemma applyRecencyDecay_mono:
  assumes "0 \<le> s" "c1 \<le> c2"
  shows "applyRecencyDecay now s c1 \<le> applyRecencyDecay now s c2"
proof -
  have "daysOld now c2 \<le> daysOld now c1"
    using assms(2) by (simp add: daysOld_def divide_right_mono)
  then have "min 1 (daysOld now c2 / 365) * 0.2 \<le> min 1 (daysOld now c1 / 365) * 0.2"
    by (simp add: min_le_iff_disj)
  then have "1 - min 1 (daysOld now c1 / 365) * 0.2 \<le> 1 - min 1 (daysOld now c2 / 365) * 0.2"
    by linarith
  from mult_left_mono [OF this assms(1)] show ?thesis
    by (simp add: applyRecencyDecay_def Let_def)
qed

lemma applyRecencyDecay_lower:
  assumes "0 \<le> s"
  shows "0.8 * s \<le> applyRecencyDecay now s c"
proof -
  have "min 1 (daysOld now c / 365) * 0.2 \<le> 0.2" by simp
  then have "0.8 \<le> 1 - min 1 (daysOld now c / 365) * 0.2" by linarith
  from mult_left_mono [OF this assms] show ?thesis
    by (simp add: applyRecencyDecay_def Let_def mult.commute)
qed

lemma applyRecencyDecay_cap_reached:
  assumes "0 < s"
  shows "applyRecencyDecay now s c = 0.8 * s \<longleftrightarrow> 365 \<le> daysOld now c"
proof -
  have "applyRecencyDecay now s c = 0.8 * s \<longleftrightarrow> 1 - min 1 (daysOld now c / 365) * 0.2 = 0.8"
    using assms by (simp add: applyRecencyDecay_def Let_def mult.commute)
  also have "\<dots> \<longleftrightarrow> min 1 (daysOld now c / 365) = 1" by auto
  also have "\<dots> \<longleftrightarrow> 365 \<le> daysOld now c" by (auto simp: min_def)
  finally show ?thesis .
qed

text \<open>
  C7. For a fixed raw similarity and one current time, \<open>applyRecencyDecay\<close> does not
  increase as \<open>createdAt\<close> moves into the past; the result is at least \<open>0.8 \<times> s\<close>, so the
  penalty is at most 20%, and for a positive similarity it is exactly 20% if and only if the
  article is 365 days old or older. The similarity \<open>s\<close> is a weighted Jaccard ratio and is
  taken non-negative throughout.
\<close>

theorem recency_decay_monotone_and_capped:
  assumes "0 \<le> s"
  shows "(c1 \<le> c2 \<longrightarrow> applyRecencyDecay now s c1 \<le> applyRecencyDecay now s c2) \<and>
         0.8 * s \<le> applyRecencyDecay now s c \<and>
         (0 < s \<longrightarrow> (applyRecencyDecay now s c = 0.8 * s \<longleftrightarrow> 365 \<le> daysOld now c))"
  using assms applyRecencyDecay_mono [of s c1 c2 now] applyRecencyDecay_lower [of s now c]
    applyRecencyDecay_cap_reached [of s now c]
  by blast

theorem recency_decay_monotone_and_capped_witness:
  "(0::real) \<le> 1 / 2 \<and> (0::int) \<le> 17280000000 \<and>
   applyRecencyDecay 34560000000 (1 / 2) 0 \<le> applyRecencyDecay 34560000000 (1 / 2) 17280000000 \<and>
   0.8 * (1 / 2) \<le> applyRecencyDecay 34560000000 (1 / 2) 0 \<and>
   applyRecencyDecay 34560000000 (1 / 2) 0 = 0.8 * (1 / 2) \<and>
   365 \<le> daysOld 34560000000 0"
proof -
  have d: "365 \<le> daysOld 34560000000 0"
    by (simp add: daysOld_def)
  from recency_decay_monotone_and_capped [of "1 / 2" 0 17280000000 34560000000 0] d
  show ?thesis by simp
qed

subsection \<open>Weighted Jaccard similarity\<close>

lemma calculateWeightedJaccard_total: "calculateWeightedJaccard a b allArticles \<noteq> None"
  by (simp add: calculateWeightedJaccard_def divide_def split: prod.splits)

lemma calculateTagWeight_name: 
  "calculateTagWeight i n a allArticles = calculateTagWeight i n' a allArticles"
  by (simp add: calculateTagWeight_def)

lemma fold_tagWeights:
  "fold (\<lambda>tag weights.
           weights(id_t tag \<mapsto> calculateTagWeight (id_t tag) (name tag) a allArticles)) ts m i =
   (if i \<in> id_t ` set ts then Some (calculateTagWeight i [] a allArticles) else m i)"
proof (induction ts arbitrary: m)
  case Nil
  then show ?case by simp
next
  case (Cons t ts)
  show ?case
    unfolding fold_simps Cons.IH
    by (auto simp: calculateTagWeight_name [of "id_t t" "name t" a allArticles "[]"])
qed

lemma tagWeights_lookup:
  "tagWeights a allArticles i =
   (if i \<in> id_t ` set (tags a) then Some (calculateTagWeight i [] a allArticles) else None)"
  by (simp add: tagWeights_def fold_tagWeights)

lemma fold_setAdd_distinct:
  "distinct (acc @ map f ts) \<Longrightarrow> fold (\<lambda>tag ids. setAdd (f tag) ids) ts acc = acc @ map f ts"
  by (induction ts arbitrary: acc) (auto simp: setAdd_def)

lemma fold_setAdd_present:
  "f ` set ts \<subseteq> set acc \<Longrightarrow> fold (\<lambda>tag ids. setAdd (f tag) ids) ts acc = acc"
  by (induction ts arbitrary: acc) (auto simp: setAdd_def)

lemma find_distinct:
  "distinct (map f xs) \<Longrightarrow> x \<in> set xs \<Longrightarrow> find (\<lambda>y. f y = f x) xs = Some x"
  by (induction xs) auto

lemma tagNameOf_own:
  "distinct (map id_t (tags a)) \<Longrightarrow> t \<in> set (tags a) \<Longrightarrow> tagNameOf a b (id_t t) = name t"
  by (simp add: tagNameOf_def find_distinct)

lemma fold_jaccardStep_self:
  assumes d: "distinct (map id_t (tags a))" and sub: "set ts \<subseteq> set (tags a)"
  shows "fold (jaccardStep a a (tagWeights a allArticles) (tagWeights a allArticles))
           (map id_t ts) (m, M, sh) =
         (m + sum_list (map (\<lambda>t. calculateTagWeight (id_t t) [] a allArticles) ts),
          M + sum_list (map (\<lambda>t. calculateTagWeight (id_t t) [] a allArticles) ts),
          sh @ map name (filter (\<lambda>t. 0 < calculateTagWeight (id_t t) [] a allArticles \<and>
                                      name t \<noteq> []) ts))"
  using sub
proof (induction ts arbitrary: m M sh)
  case Nil
  then show ?case by simp
next
  case (Cons t ts)
  from Cons.prems have t: "t \<in> set (tags a)" and ts: "set ts \<subseteq> set (tags a)" by auto
  have step: "jaccardStep a a (tagWeights a allArticles) (tagWeights a allArticles) (id_t t) (m, M, sh)
     = (m + calculateTagWeight (id_t t) [] a allArticles,
        M + calculateTagWeight (id_t t) [] a allArticles,
        if 0 < calculateTagWeight (id_t t) [] a allArticles \<and> name t \<noteq> []
        then sh @ [name t] else sh)"
    using t by (simp add: jaccardStep_def tagWeights_lookup orDefault_def tagNameOf_own [OF d t] Let_def)
  show ?case
    by (simp add: step Cons.IH [OF ts])
qed

lemma calculateWeightedJaccard_self:
  assumes d: "distinct (map id_t (tags a))"
  shows "calculateWeightedJaccard a a allArticles =
     Some (if 0 < sum_list (map (\<lambda>t. calculateTagWeight (id_t t) [] a allArticles) (tags a))
           then 1 else 0,
           map name (filter (\<lambda>t. 0 < calculateTagWeight (id_t t) [] a allArticles \<and>
                                      name t \<noteq> []) (tags a)))"
proof -
  have ids: "fold (\<lambda>tag ids. setAdd (id_t tag) ids) (tags a)
               (fold (\<lambda>tag ids. setAdd (id_t tag) ids) (tags a) []) = map id_t (tags a)"
    using d by (simp add: fold_setAdd_distinct [where acc = "[]", simplified] fold_setAdd_present)
  show ?thesis
    unfolding calculateWeightedJaccard_def jaccardSums_def Let_def ids
      fold_jaccardStep_self [OF d subset_refl]
    by (simp add: divide_def)
qed

lemma articlesWithTag_le: "articlesWithTag i allArticles \<le> length allArticles"
  by (simp add: articlesWithTag_def)

lemma engagementBoost_pos:
  assumes "0 \<le> likesCount a" "0 \<le> commentsCount a" "0 \<le> readCount a"
  shows "0 < 1 + ln (1 + (real_of_int (likesCount a) * 0.3 +
                         real_of_int (commentsCount a) * 0.5 +
                         real_of_int (readCount a) * 0.2))"
proof -
  have "0 \<le> real_of_int (likesCount a) * 0.3 + real_of_int (commentsCount a) * 0.5 +
             real_of_int (readCount a) * 0.2"
    using assms by simp
  then have "0 \<le> ln (1 + (real_of_int (likesCount a) * 0.3 +
                         real_of_int (commentsCount a) * 0.5 +
                         real_of_int (readCount a) * 0.2))"
    by (intro ln_ge_zero) linarith
  then show ?thesis by linarith
qed

lemma idf_tag_sign:
  "0 \<le> ln (real (length allArticles + 1) / real (articlesWithTag i allArticles + 1))"
  "0 < ln (real (length allArticles + 1) / real (articlesWithTag i allArticles + 1))
     \<longleftrightarrow> articlesWithTag i allArticles < length allArticles"
  using articlesWithTag_le [of i allArticles] by (simp_all add: ln_ge_zero)

lemma calculateTagWeight_own:
  assumes "0 \<le> likesCount a" "0 \<le> commentsCount a" "0 \<le> readCount a"
    and "t \<in> set (tags a)"
  shows "0 \<le> calculateTagWeight (id_t t) n a allArticles"
    and "0 < calculateTagWeight (id_t t) n a allArticles
           \<longleftrightarrow> articlesWithTag (id_t t) allArticles < length allArticles"
proof -
  have tf: "list_ex (\<lambda>u. id_t u = id_t t) (tags a)"
    using assms(4) by (auto simp: list_ex_iff)
  note b = engagementBoost_pos [OF assms(1-3)]
  show "0 \<le> calculateTagWeight (id_t t) n a allArticles"
    using tf b idf_tag_sign(1) [of allArticles "id_t t"]
    by (simp add: calculateTagWeight_def Let_def)
  show "0 < calculateTagWeight (id_t t) n a allArticles
           \<longleftrightarrow> articlesWithTag (id_t t) allArticles < length allArticles"
    using tf b idf_tag_sign(2) [of allArticles "id_t t"]
    by (simp add: calculateTagWeight_def Let_def zero_less_mult_iff)
qed

subsection \<open>The recommendations on the example articles\<close>

lemmas art_defs = tag_zeta_def tag_alpha_def art_current_def art_similar_def art_other_def

lemma articlesWithTag_ex:
  "articlesWithTag ''t1'' exampleCandidates = 1" "articlesWithTag ''t2'' exampleCandidates = 1"
  by (simp_all add: articlesWithTag_def exampleCandidates_def art_defs)

lemma length_exampleCandidates: "length exampleCandidates = 2"
  by (simp add: exampleCandidates_def)

lemma weight_current:
  "calculateTagWeight ''t1'' n art_current exampleCandidates = ln (3 / 2)"
  "calculateTagWeight ''t2'' n art_current exampleCandidates = ln (3 / 2)"
  by (simp_all add: calculateTagWeight_def articlesWithTag_ex length_exampleCandidates)
     (simp_all add: art_defs)

lemma weight_similar:
  "calculateTagWeight ''t1'' n art_similar exampleCandidates = ln (3 / 2)"
  "calculateTagWeight ''t2'' n art_similar exampleCandidates = ln (3 / 2)"
  by (simp_all add: calculateTagWeight_def articlesWithTag_ex length_exampleCandidates)
     (simp_all add: art_defs)

lemma tags_ex:
  "tags art_current = [tag_zeta, tag_alpha]" "tags art_similar = [tag_zeta, tag_alpha]"
  "tags art_other = []"
  "id_t tag_zeta = ''t1''" "id_t tag_alpha = ''t2''"
  "name tag_zeta = ''zeta''" "name tag_alpha = ''alpha''"
  by (simp_all add: art_defs)

lemma ln32: "0 < ln (3 / 2 :: real)" by simp

lemma jaccard_current_similar:
  "calculateWeightedJaccard art_current art_similar exampleCandidates =
     Some (1, [''zeta'', ''alpha''])"
  using ln32
  by (simp add: calculateWeightedJaccard_def jaccardSums_def Let_def tags_ex setAdd_def jaccardStep_def
      tagWeights_lookup weight_current weight_similar orDefault_def tagNameOf_def divide_def)

lemma jaccard_current_other:
  "calculateWeightedJaccard art_current art_other exampleCandidates = Some (0, [])"
  using ln32
  by (simp add: calculateWeightedJaccard_def jaccardSums_def Let_def tags_ex setAdd_def jaccardStep_def
      tagWeights_lookup weight_current orDefault_def divide_def)

lemma weight_empty_corpus:
  "calculateTagWeight i n a [] = 0"
  by (simp add: calculateTagWeight_def articlesWithTag_def)

lemma weight_single_corpus:
  "calculateTagWeight ''t1'' n art_current [art_current] = 0"
  "calculateTagWeight ''t2'' n art_current [art_current] = 0"
  by (simp_all add: calculateTagWeight_def articlesWithTag_def tags_ex)

lemma distinct_current: "distinct (map id_t (tags art_current))"
  by (simp add: tags_ex)

lemma recommendations_example:
  "getContentBasedRecommendations 0 art_current exampleCandidates [] 10 =
     Some [Article_r.extend art_similar (RecommendedArticle.fields 1 [''alpha'', ''zeta''])]"
proof -
  have ids: "id_a art_current = ''cur''" "id_a art_similar = ''sim''" "id_a art_other = ''oth''"
    "createdAt art_similar = 0" "createdAt art_other = 0"
    by (simp_all add: art_defs)
  have cands: "filter (\<lambda>article. id_a article \<noteq> id_a art_current \<and> id_a article \<notin> set [])
                 exampleCandidates = [art_similar, art_other]"
    by (simp add: exampleCandidates_def ids)
  have decay: "applyRecencyDecay 0 s 0 = s" for s
    by (simp add: applyRecencyDecay_def daysOld_def)
  have sel: "similarityScore (Article_r.extend a (RecommendedArticle.fields s ts)) = s"
    "sharedTags (Article_r.extend a (RecommendedArticle.fields s ts)) = ts" for a s ts
    by (simp_all add: Article_r.extend_def RecommendedArticle.fields_def)
  have upd: "(Article_r.extend a (RecommendedArticle.fields s ts))\<lparr>sharedTags := ts'\<rparr> =
             Article_r.extend a (RecommendedArticle.fields s ts')" for a s ts ts'
    by (simp add: Article_r.extend_def RecommendedArticle.fields_def)
  have srt: "sort [''zeta'', ''alpha''] = [''alpha'', ''zeta'']"
    by simp
  show ?thesis
    unfolding getContentBasedRecommendations_def Let_def cands
    by (simp add: jaccard_current_similar jaccard_current_other ids decay sel upd srt slice0_def)
qed


subsection \<open>The claims on the similarity\<close>

text \<open>
  C2 (as amended). Take an article \<open>A\<close> with distinct tag ids and counters that are not
  negative, and any corpus. \<open>calculateWeightedJaccard(A, A, corpus)\<close> returns the similarity
  1.0 when some tag of \<open>A\<close> is missing from at least one article of the corpus, and 0
  otherwise: a tag that every article of the corpus carries has the weight 0. Its
  \<open>sharedTags\<close> are the non-empty names of the tags of \<open>A\<close> that are missing from at least one
  article of the corpus, in the order of \<open>A.tags\<close>. So the similarity is 1.0 with the names of
  the full tag set exactly when \<open>A\<close> has a tag, and each of its tags has a name and is missing
  from some article of the corpus.
\<close>

theorem self_similarity:
  assumes "distinct (map id_t (tags a))"
    and "0 \<le> likesCount a" "0 \<le> commentsCount a" "0 \<le> readCount a"
  shows "calculateWeightedJaccard a a allArticles =
     Some (if \<exists>t \<in> set (tags a). articlesWithTag (id_t t) allArticles < length allArticles
           then 1 else 0,
           map name (filter (\<lambda>t. articlesWithTag (id_t t) allArticles < length allArticles \<and>
                                   name t \<noteq> []) (tags a)))"
proof -
  let ?w = "\<lambda>t. calculateTagWeight (id_t t) [] a allArticles"
  have nonneg: "\<forall>x \<in> set (map ?w (tags a)). 0 \<le> x"
    using calculateTagWeight_own(1) [OF assms(2-4)] by auto
  have "0 < sum_list (map ?w (tags a)) \<longleftrightarrow> sum_list (map ?w (tags a)) \<noteq> 0"
    using sum_list_nonneg [of "map ?w (tags a)"] nonneg by fastforce
  also have "\<dots> \<longleftrightarrow> (\<exists>x \<in> set (map ?w (tags a)). x \<noteq> 0)"
    using sum_list_nonneg_eq_0_iff [of "map ?w (tags a)"] nonneg by blast
  also have "\<dots> \<longleftrightarrow> (\<exists>t \<in> set (tags a). 0 < ?w t)"
  proof -
    have "?w t \<noteq> 0 \<longleftrightarrow> 0 < ?w t" if "t \<in> set (tags a)" for t
      using calculateTagWeight_own(1) [OF assms(2-4) that, of "[]" allArticles] by linarith
    then show ?thesis by auto
  qed
  also have "\<dots> \<longleftrightarrow>
      (\<exists>t \<in> set (tags a). articlesWithTag (id_t t) allArticles < length allArticles)"
    using calculateTagWeight_own(2) [OF assms(2-4)] by blast
  finally have sim: "0 < sum_list (map ?w (tags a)) \<longleftrightarrow>
      (\<exists>t \<in> set (tags a). articlesWithTag (id_t t) allArticles < length allArticles)" .
  have "filter (\<lambda>t. 0 < ?w t \<and> name t \<noteq> []) (tags a) =
        filter (\<lambda>t. articlesWithTag (id_t t) allArticles < length allArticles \<and>
                                   name t \<noteq> []) (tags a)"
    using calculateTagWeight_own(2) [OF assms(2-4)] by (intro filter_cong) auto
  with sim show ?thesis
    unfolding calculateWeightedJaccard_self [OF assms(1)] by simp
qed

theorem self_similarity_witness:
  "distinct (map id_t (tags art_current)) \<and>
   0 \<le> likesCount art_current \<and> 0 \<le> commentsCount art_current \<and> 0 \<le> readCount art_current \<and>
   calculateWeightedJaccard art_current art_current exampleCandidates =
     Some (1, [''zeta'', ''alpha''])"
proof -
  have c: "0 \<le> likesCount art_current" "0 \<le> commentsCount art_current"
    "0 \<le> readCount art_current"
    by (simp_all add: art_current_def)
  from self_similarity [OF distinct_current c, of exampleCandidates]
  show ?thesis
    using distinct_current c
    by (simp add: tags_ex articlesWithTag_ex length_exampleCandidates)
qed


text \<open>
  C2 as stated fails for the example article, which has two tags: against the empty corpus,
  and against the corpus that holds only the article itself, every weight is \<open>ln 1 = 0\<close>, so
  the similarity is 0 and no tag is shared.
\<close>

theorem self_similarity_counterexample:
  "tags art_current = [tag_zeta, tag_alpha] \<and>
   calculateWeightedJaccard art_current art_current [] = Some (0, []) \<and>
   calculateWeightedJaccard art_current art_current [art_current] = Some (0, [])"
  by (simp add: calculateWeightedJaccard_self [OF distinct_current] tags_ex weight_empty_corpus
      weight_single_corpus)


subsection \<open>The diversity pass\<close>

lemma diversityLoop_sorted:
  "\<forall>r \<in> set acc. sorted (sharedTags r) \<Longrightarrow>
   \<forall>r \<in> set (diversityLoop limit xs (acc, used)). sorted (sharedTags r)"
proof (induction xs arbitrary: acc used)
  case Nil
  then show ?case by simp
next
  case (Cons x xs)
  have "\<forall>r \<in> set (acc @ [x\<lparr>sharedTags := sort (sharedTags x)\<rparr>]). sorted (sharedTags r)"
    using Cons.prems by simp
  from Cons.IH [OF this] Cons.IH [OF Cons.prems] Cons.prems show ?case
    by (simp add: Let_def)
qed

text \<open>
  C10. \<open>getContentBasedRecommendations\<close> always returns a list, and every record in it has
  its \<open>sharedTags\<close> in ascending lexicographic order: the diversity pass sorts the array of
  each record in place before it accepts the record.
\<close>

theorem recommendations_shared_tags_sorted:
  "\<exists>rs. getContentBasedRecommendations now currentArticle candidateArticles excludeArticleIds limit
           = Some rs \<and>
        (\<forall>r \<in> set rs. sorted (sharedTags r))"
proof -
  let ?candidates = "filter (\<lambda>article. id_a article \<noteq> id_a currentArticle \<and>
                              id_a article \<notin> set excludeArticleIds) candidateArticles"
  let ?f = "\<lambda>article.
                      map_option (\<lambda>(similarity, shared).
                          Article_r.extend article
                            (RecommendedArticle.fields
                               (applyRecencyDecay now similarity (createdAt article)) shared))
                        (calculateWeightedJaccard currentArticle article candidateArticles)"
  have "those (map ?f ?candidates) \<noteq> None"
    by (intro those_map_total) (simp add: calculateWeightedJaccard_total)
  then obtain recommendations where r: "those (map ?f ?candidates) = Some recommendations"
    by auto
  let ?ranked = "sort_key (\<lambda>r. - similarityScore r)
                   (filter (\<lambda>r. similarityScore r > 0 \<and> length (sharedTags r) > 0)
                     recommendations)"
  have eq: "getContentBasedRecommendations now currentArticle candidateArticles excludeArticleIds
              limit = Some (slice0 limit (diversityLoop limit ?ranked ([], {})))"
    by (simp add: getContentBasedRecommendations_def Let_def r)
  have "\<forall>r \<in> set (diversityLoop limit ?ranked ([], {})). sorted (sharedTags r)"
    by (rule diversityLoop_sorted) simp
  with set_slice0 [of limit "diversityLoop limit ?ranked ([], {})"]
  have "\<forall>r \<in> set (slice0 limit (diversityLoop limit ?ranked ([], {}))). sorted (sharedTags r)"
    by blast
  with eq show ?thesis by blast
qed

theorem recommendations_shared_tags_sorted_witness:
  "getContentBasedRecommendations 0 art_current exampleCandidates [] 10 =
     Some [Article_r.extend art_similar (RecommendedArticle.fields 1 [''alpha'', ''zeta''])] \<and>
   sorted (sharedTags
     (Article_r.extend art_similar (RecommendedArticle.fields 1 [''alpha'', ''zeta''])))"
  using recommendations_shared_tags_sorted [of 0 art_current exampleCandidates "[]" 10]
  unfolding recommendations_example by simp

section \<open>Division by zero\<close>

lemma jaccardSums_example: "jaccardSums art_current art_other [] = (0, 0, [])"
  by (simp add: jaccardSums_def Let_def tags_ex setAdd_def jaccardStep_def tagWeights_lookup
      weight_empty_corpus orDefault_def)

lemma calculateLogarithmicDecay_None_iff:
  "calculateLogarithmicDecay now articleDate 1.8 = None \<longleftrightarrow> now - articleDate = - 43200000"
proof -
  have "calculateLogarithmicDecay now articleDate 1.8 = None
        \<longleftrightarrow> 1 + real_of_int (now - articleDate) / (1000 * 60 * 60) / 12 = 0"
    by (simp add: calculateLogarithmicDecay_def divide_def)
  also have "\<dots> \<longleftrightarrow> real_of_int (now - articleDate) = real_of_int (- 43200000)"
    by (simp add: field_simps)
  also have "\<dots> \<longleftrightarrow> now - articleDate = - 43200000"
    by (simp only: of_int_eq_iff)
  finally show ?thesis .
qed

text \<open>
  C1 (as amended). Not every division has a zero-check.
  \<^item> \<open>calculateWeightedJaccard\<close> divides by \<open>maxSum\<close> only under the check \<open>maxSum > 0\<close> and
    returns the similarity 0 otherwise; \<open>calculateAvgDocLength\<close> divides by the number of
    documents only when there is one and returns 0 otherwise. On every input neither divides
    by zero.
  \<^item> \<open>calculateBM25Score\<close> has no zero-check, neither on \<open>avgDocLength\<close> nor on the BM25
    denominator. As \<open>rankDocumentsWithBM25\<close> calls it with the default parameters, no division
    by zero happens all the same: a term reaches the divisions only with a positive IDF, so
    it occurs in a document, and the average document length is positive.
  \<^item> \<open>calculateLogarithmicDecay\<close> divides 1 by the power without a check; the power is zero
    exactly for an article dated 12 hours after the reading of the clock.
\<close>

theorem division_by_zero_guards:
  "calculateWeightedJaccard a a' allArticles =
     (case jaccardSums a a' allArticles of
        (minSum, maxSum, shared) \<Rightarrow> Some (if maxSum > 0 then minSum / maxSum else 0, shared)) \<and>
   calculateAvgDocLength documents =
     Some (if documents = [] then 0
           else real (sum_list (map (\<lambda>doc. length (tokenize (text_d doc))) documents)) /
                real (length documents)) \<and>
   (orDefault (k1_cfg config) 1.5 = 1.5 \<and> orDefault (b_cfg config) 0.75 = 0.75 \<longrightarrow>
      rankDocumentsWithBM25 query documents config \<noteq> None) \<and>
   (calculateLogarithmicDecay now articleDate 1.8 = None \<longleftrightarrow>
      now - articleDate = - 43200000)"
proof (intro conjI impI)
  show "calculateWeightedJaccard a a' allArticles =
     (case jaccardSums a a' allArticles of
        (minSum, maxSum, shared) \<Rightarrow> Some (if maxSum > 0 then minSum / maxSum else 0, shared))"
    by (simp add: calculateWeightedJaccard_def divide_def split: prod.splits)
  show "calculateAvgDocLength documents =
     Some (if documents = [] then 0
           else real (sum_list (map (\<lambda>doc. length (tokenize (text_d doc))) documents)) /
                real (length documents))"
    by (rule calculateAvgDocLength_Some)
  show "calculateLogarithmicDecay now articleDate 1.8 = None \<longleftrightarrow>
      now - articleDate = - 43200000"
    by (rule calculateLogarithmicDecay_None_iff)
next
  assume "orDefault (k1_cfg config) 1.5 = 1.5 \<and> orDefault (b_cfg config) 0.75 = 0.75"
  then show "rankDocumentsWithBM25 query documents config \<noteq> None"
    by (intro rankDocumentsWithBM25_total) simp_all
qed

theorem division_by_zero_guards_witness:
  "orDefault (k1_cfg defaultConfig) 1.5 = (1.5::real) \<and>
   orDefault (b_cfg defaultConfig) 0.75 = (0.75::real) \<and>
   rankDocumentsWithBM25 ''rust'' exampleDocuments defaultConfig \<noteq> None \<and>
   calculateAvgDocLength [] = Some 0 \<and>
   calculateAvgDocLength exampleDocuments = Some (8 / 3) \<and>
   jaccardSums art_current art_other [] = (0, 0, []) \<and>
   calculateWeightedJaccard art_current art_other [] = Some (0, []) \<and>
   calculateLogarithmicDecay 0 43200000 1.8 = None"
proof -
  have c: "orDefault (k1_cfg defaultConfig) 1.5 = (1.5::real)"
    "orDefault (b_cfg defaultConfig) 0.75 = (0.75::real)"
    by (simp_all add: defaultConfig_def orDefault_def)
  from division_by_zero_guards
    [of art_current art_other "[]" "[]" defaultConfig "''rust''" 0 43200000]
    division_by_zero_guards
    [of art_current art_other "[]" exampleDocuments defaultConfig "''rust''" 0 43200000]
    c
  show ?thesis
    by (simp add: jaccardSums_example avg_ex)
qed

text \<open>
  C1 as stated fails in three places. \<open>calculateBM25Score\<close>, given the average length 0,
  divides the document length by it. Through \<open>rankDocumentsWithBM25\<close> with \<open>k1 = 0\<close>, the
  document about pasta, which does not contain the query term, has the BM25 denominator
  \<open>0 + 0 \<times> \<dots> = 0\<close>. And \<open>calculateLogarithmicDecay\<close> divides by \<open>Math.pow(0, 1.8) = 0\<close> for
  an article dated 12 hours after the clock.
\<close>

theorem division_by_zero_counterexample:
  "calculateBM25Score ''rust'' doc_rust exampleDocuments
      (buildInvertedIndex exampleDocuments) 0 defaultConfig = None \<and>
   rankDocumentsWithBM25 ''rust'' exampleDocuments zeroK1Config = None \<and>
   calculateLogarithmicDecay 0 43200000 1.8 = None"
  using score_a_zero_avg rank_zero_k1
  by (simp add: calculateLogarithmicDecay_def divide_def)

end
